theory Spec2Isabelle
  imports Complex_Main "HOL-Library.AList" "HOL-Library.Log_Nat"
begin

section \<open>Python values\<close>

text \<open>
  The cache of \<^verbatim>\<open>cache_manager.py\<close> stores Python dictionaries and reads back
  whatever \<^verbatim>\<open>json.load\<close> finds in a file, so an entry is a dynamically typed value.
  \<^item> \<open>PNum\<close> is an int or a finite float, by its exact value; \<open>PNaN\<close> and \<open>PInf\<close> are the
    floats NaN and plus or minus Infinity, which \<^verbatim>\<open>json.load\<close> accepts (\<open>PInf True\<close> is
    the positive one).
  \<^item> \<open>PDate t\<close> is a str that \<^verbatim>\<open>datetime.fromisoformat\<close> accepts as a naive datetime,
    carried as the instant it denotes, in microseconds; \<open>PStr\<close> is any other str (one
    that \<^verbatim>\<open>fromisoformat\<close> rejects, or reads with a UTC offset, which the subtraction
    from \<^verbatim>\<open>datetime.now()\<close> rejects).
  \<^item> \<open>PDict\<close> is a dict with str keys as an association list; the first pair of a key
    is its binding.
  \<^item> \<open>PObject\<close> is any object that \<^verbatim>\<open>json.dump\<close> cannot encode (a set, a datetime).
\<close>

datatype pyval =
    PNone
  | PBool bool
  | PNum rat
  | PStr string
  | PDate int
  | PList "pyval list"
  | PDict "(string \<times> pyval) list"
  | PObject
  | PNaN
  | PInf bool

datatype exn = KeyError | TypeError | ValueError | OSError

text \<open>Truth value testing, as \<^verbatim>\<open>if x:\<close> does it.\<close>

fun truthy :: "pyval \<Rightarrow> bool" where
  "truthy PNone = False"
| "truthy (PBool b) = b"
| "truthy (PNum r) = (r \<noteq> 0)"
| "truthy (PStr s) = (s \<noteq> [])"
| "truthy (PDate t) = True"
| "truthy (PList xs) = (xs \<noteq> [])"
| "truthy (PDict kvs) = (kvs \<noteq> [])"
| "truthy PObject = True"
| "truthy PNaN = True"
| "truthy (PInf b) = True"

text \<open>\<^verbatim>\<open>x[k]\<close> with a str key: only a dict has one, and only for a key it holds.\<close>

fun py_getitem :: "pyval \<Rightarrow> string \<Rightarrow> exn + pyval" where
  "py_getitem (PDict kvs) k = (case map_of kvs k of None \<Rightarrow> Inl KeyError | Some v \<Rightarrow> Inr v)"
| "py_getitem _ k = Inl TypeError"

text \<open>\<^verbatim>\<open>datetime.fromisoformat(x)\<close>: TypeError unless a str, ValueError unless ISO.\<close>

fun fromisoformat :: "pyval \<Rightarrow> exn + int" where
  "fromisoformat (PDate t) = Inr t"
| "fromisoformat (PStr s) = Inl ValueError"
| "fromisoformat _ = Inl TypeError"

section \<open>Doubles\<close>

text \<open>
  A finite double is the rational it denotes. \<open>to_double x\<close> is the double nearest to
  \<open>x\<close>, ties to the even significand, with a significand of 53 bits: for \<open>x\<close> in the
  binade \<open>2^e \<le> |x| < 2^(e+1)\<close> the doubles are the multiples of \<open>2^(e-52)\<close>. The
  exponent range of doubles is left out: every timedelta, at most 10^9 days and at
  least a microsecond when not zero, has a number of seconds far inside it.
\<close>

definition exponent :: "rat \<Rightarrow> int" where
  "exponent x = (if 1 \<le> x then bitlen \<lfloor>x\<rfloor> - 1 else - bitlen (\<lceil>1 / x\<rceil> - 1))"

definition round_half_even :: "rat \<Rightarrow> int" where
  "round_half_even z =
     (let n = \<lfloor>z\<rfloor>; r = z - of_int n
      in if r < 1 / 2 then n else if 1 / 2 < r then n + 1 else if even n then n else n + 1)"

definition to_double :: "rat \<Rightarrow> rat" where
  "to_double x =
     (if x = 0 then 0
      else
        (let q = 2 powi (exponent \<bar>x\<bar> - 52)
         in sgn x * (q * of_int (round_half_even (\<bar>x\<bar> / q)))))"

text \<open>
  A duration in microseconds as a number of seconds, and
  \<^verbatim>\<open>timedelta.total_seconds()\<close>, which divides the microseconds by \<open>10^6\<close> and rounds
  the quotient to a double.
\<close>

definition seconds :: "int \<Rightarrow> rat" where
  "seconds d = of_int d / 1000000"

definition total_seconds :: "int \<Rightarrow> rat" where
  "total_seconds d = to_double (seconds d)"

text \<open>
  \<^verbatim>\<open>a < x\<close> for a float \<open>a\<close>: defined for numbers (a bool is the int 0 or 1), exact
  between a float and an int, False against NaN.
\<close>

fun float_lt :: "rat \<Rightarrow> pyval \<Rightarrow> exn + bool" where
  "float_lt a (PNum r) = Inr (a < r)"
| "float_lt a (PBool b) = Inr (a < (if b then 1 else 0))"
| "float_lt a PNaN = Inr False"
| "float_lt a (PInf b) = Inr b"
| "float_lt a _ = Inl TypeError"

section \<open>Encoding\<close>

text \<open>
  Whether \<^verbatim>\<open>json.dump\<close> can encode a value, by the types in it. What the interpreter
  refuses for its size (nesting beyond the recursion limit, an int with more digits
  than it converts) is a failure of the write like any other: see \<open>write_fails\<close> below.
\<close>

fun serializable :: "pyval \<Rightarrow> bool" where
  "serializable PObject = False"
| "serializable (PList xs) = list_all serializable xs"
| "serializable (PDict kvs) = list_all serializable (map snd kvs)"
| "serializable _ = True"

section \<open>The cache manager\<close>

text \<open>
  The operations are modelled one call at a time: the lock and the logger have no
  effect on what a call returns or stores and are left out. \<^verbatim>\<open>datetime.now()\<close> is an
  argument \<open>now\<close> of each operation, in microseconds, read once per call.

  A file of the cache directory holds either text that \<^verbatim>\<open>json.load\<close> rejects or the
  value it decodes to.
\<close>

datatype content = Undecodable | Json pyval

text \<open>
  The state of a \<^verbatim>\<open>CacheManager\<close>: the dict \<^verbatim>\<open>_memory_cache\<close> in insertion order and
  the directory \<^verbatim>\<open>_cache_dir\<close> as a listing from file name to content, in the order
  \<^verbatim>\<open>glob\<close> yields it. The environment is part of the state as sets of file names:
  \<^item> \<open>read_fails\<close>: \<^verbatim>\<open>open('r')\<close> raises OSError;
  \<^item> \<open>write_fails\<close>: the write raises, for a reason other than the types in the payload:
    \<^verbatim>\<open>open('w')\<close> raises OSError, or \<^verbatim>\<open>json.dump\<close>, the flush or the close raise after it
    (a full disk, the limits of the interpreter);
  \<^item> \<open>write_truncates\<close>: the files of \<open>write_fails\<close> on which the exception comes after
    \<^verbatim>\<open>open('w')\<close> has succeeded, and so has truncated the file;
  \<^item> \<open>unlink_fails\<close>: \<^verbatim>\<open>unlink()\<close> raises OSError.
\<close>

record cache_manager =
  memory_cache :: "(string \<times> pyval) list"
  cache_dir :: "(string \<times> content) list"
  read_fails :: "string set"
  write_fails :: "string set"
  write_truncates :: "string set"
  unlink_fails :: "string set"

text \<open>
  \<^verbatim>\<open>_get_cache_file_path\<close> (lines 124-127). The SHA-256 hex digest of the key is the
  parameter \<open>H\<close>.
\<close>

definition get_cache_file_path :: "(string \<Rightarrow> string) \<Rightarrow> string \<Rightarrow> string" where
  "get_cache_file_path H key = H key @ ''.cache''"

text \<open>
  \<^verbatim>\<open>_is_cache_valid\<close> (lines 129-140). \<open>now\<close> is \<^verbatim>\<open>datetime.now()\<close> in microseconds,
  \<open>max_age\<close> an optional timedelta in microseconds. \<^verbatim>\<open>not max_age\<close> holds for None and
  for the zero timedelta.
\<close>

definition is_cache_valid :: "int \<Rightarrow> pyval \<Rightarrow> int option \<Rightarrow> exn + bool" where
  "is_cache_valid now cache_entry max_age =
     (case max_age of
        None \<Rightarrow> Inr True
      | Some m \<Rightarrow>
          if m = 0 then Inr True
          else
            (case py_getitem cache_entry ''timestamp'' of
               Inl e \<Rightarrow> Inl e
             | Inr ts \<Rightarrow>
                 (case fromisoformat ts of
                    Inl e \<Rightarrow> Inl e
                  | Inr cached_time \<Rightarrow>
                      (case py_getitem cache_entry ''ttl'' of
                         Inl e \<Rightarrow> Inl e
                       | Inr ttl \<Rightarrow>
                           if truthy ttl then float_lt (total_seconds (now - cached_time)) ttl
                           else Inr (now - cached_time < m)))))"

text \<open>
  \<^verbatim>\<open>_read_cache_file\<close> (lines 142-149): the decoded value, or None when opening or
  decoding raises.
\<close>

definition read_cache_file :: "cache_manager \<Rightarrow> string \<Rightarrow> pyval" where
  "read_cache_file s cache_file =
     (if cache_file \<in> read_fails s then PNone
      else
        (case map_of (cache_dir s) cache_file of
           None \<Rightarrow> PNone
         | Some Undecodable \<Rightarrow> PNone
         | Some (Json v) \<Rightarrow> v))"

text \<open>
  \<^verbatim>\<open>_write_cache_file\<close> (lines 151-157). When \<^verbatim>\<open>open('w')\<close> raises nothing is written.
  Otherwise the file is truncated first, so a write that fails after the open, and a
  value that \<^verbatim>\<open>json.dump\<close> rejects, leave a file that no longer decodes. Every
  exception is caught here.
\<close>

definition write_cache_file :: "cache_manager \<Rightarrow> string \<Rightarrow> pyval \<Rightarrow> cache_manager" where
  "write_cache_file s cache_file data =
     (if cache_file \<in> write_fails s
      then (if cache_file \<in> write_truncates s
            then s\<lparr>cache_dir := AList.update cache_file Undecodable (cache_dir s)\<rparr>
            else s)
      else s\<lparr>cache_dir :=
        AList.update cache_file (if serializable data then Json data else Undecodable)
          (cache_dir s)\<rparr>)"

text \<open>\<^verbatim>\<open>Path.exists()\<close> and \<^verbatim>\<open>Path.unlink()\<close>.\<close>

definition file_exists :: "cache_manager \<Rightarrow> string \<Rightarrow> bool" where
  "file_exists s cache_file = (map_of (cache_dir s) cache_file \<noteq> None)"

definition unlink :: "cache_manager \<Rightarrow> string \<Rightarrow> exn + cache_manager" where
  "unlink s cache_file =
     (if map_of (cache_dir s) cache_file = None \<or> cache_file \<in> unlink_fails s then Inl OSError
      else Inr (s\<lparr>cache_dir := AList.delete cache_file (cache_dir s)\<rparr>))"

text \<open>\<^verbatim>\<open>self._cache_dir.glob("*.cache")\<close>: the names of the listing that end in \<^verbatim>\<open>.cache\<close>.\<close>

definition endswith :: "string \<Rightarrow> string \<Rightarrow> bool" where
  "endswith suf n = (drop (length n - length suf) n = suf)"

definition glob_cache :: "cache_manager \<Rightarrow> string list" where
  "glob_cache s = filter (endswith ''.cache'') (map fst (cache_dir s))"

text \<open>
  The entry that \<^verbatim>\<open>set\<close> builds (lines 72-76): \<^verbatim>\<open>ttl.total_seconds() if ttl else None\<close>
  is None for no ttl and for the zero timedelta.
\<close>

definition cache_entry :: "int \<Rightarrow> int option \<Rightarrow> pyval \<Rightarrow> pyval" where
  "cache_entry now ttl data =
     PDict [(''timestamp'', PDate now),
            (''ttl'', (case ttl of
                         None \<Rightarrow> PNone
                       | Some d \<Rightarrow> if d = 0 then PNone else PNum (total_seconds d))),
            (''data'', data)]"

text \<open>
  \<^verbatim>\<open>set\<close> (lines 62-89). Nothing in the body raises: \<^verbatim>\<open>_write_cache_file\<close> catches its
  own exceptions, so the handler of \<^verbatim>\<open>set\<close> has nothing left to catch.
\<close>

definition set_op ::
  "(string \<Rightarrow> string) \<Rightarrow> cache_manager \<Rightarrow> int \<Rightarrow> string \<Rightarrow> pyval \<Rightarrow> int option \<Rightarrow> cache_manager" where
  "set_op H s now key data ttl =
     (let entry = cache_entry now ttl data;
          s1 = s\<lparr>memory_cache := AList.update key entry (memory_cache s)\<rparr>
      in write_cache_file s1 (get_cache_file_path H key) entry)"

text \<open>
  The body of the \<^verbatim>\<open>try\<close> of \<^verbatim>\<open>get\<close> (lines 38-55), in its two phases. The result is
  \<open>Inl e\<close> when \<open>e\<close> is raised, \<open>Inr (Some v)\<close> when a \<^verbatim>\<open>return v\<close> is reached and
  \<open>Inr None\<close> when control falls out of the phase.
\<close>

definition get_memory :: "cache_manager \<Rightarrow> int \<Rightarrow> string \<Rightarrow> int option \<Rightarrow> exn + pyval option" where
  "get_memory s now key max_age =
     (case map_of (memory_cache s) key of
        None \<Rightarrow> Inr None
      | Some cached_data \<Rightarrow>
          (case is_cache_valid now cached_data max_age of
             Inl e \<Rightarrow> Inl e
           | Inr False \<Rightarrow> Inr None
           | Inr True \<Rightarrow>
               (case py_getitem cached_data ''data'' of
                  Inl e \<Rightarrow> Inl e
                | Inr v \<Rightarrow> Inr (Some v))))"

definition get_disk ::
  "(string \<Rightarrow> string) \<Rightarrow> cache_manager \<Rightarrow> int \<Rightarrow> string \<Rightarrow> int option
     \<Rightarrow> (exn + pyval option) \<times> cache_manager" where
  "get_disk H s now key max_age =
     (let cache_file = get_cache_file_path H key in
      if \<not> file_exists s cache_file then (Inr None, s)
      else
        (let cached_data = read_cache_file s cache_file in
         if \<not> truthy cached_data then (Inr None, s)
         else
           (case is_cache_valid now cached_data max_age of
              Inl e \<Rightarrow> (Inl e, s)
            | Inr False \<Rightarrow> (Inr None, s)
            | Inr True \<Rightarrow>
                (let s1 = s\<lparr>memory_cache := AList.update key cached_data (memory_cache s)\<rparr>
                 in (case py_getitem cached_data ''data'' of
                       Inl e \<Rightarrow> (Inl e, s1)
                     | Inr v \<Rightarrow> (Inr (Some v), s1))))))"

definition get_try ::
  "(string \<Rightarrow> string) \<Rightarrow> cache_manager \<Rightarrow> int \<Rightarrow> string \<Rightarrow> int option
     \<Rightarrow> (exn + pyval option) \<times> cache_manager" where
  "get_try H s now key max_age =
     (case get_memory s now key max_age of
        Inl e \<Rightarrow> (Inl e, s)
      | Inr (Some v) \<Rightarrow> (Inr (Some v), s)
      | Inr None \<Rightarrow> get_disk H s now key max_age)"

text \<open>
  \<^verbatim>\<open>get\<close> (lines 26-60): the value returned inside the \<^verbatim>\<open>try\<close>, and None (absent)
  when the body raised or fell through. The second component is the state afterwards.
\<close>

definition get ::
  "(string \<Rightarrow> string) \<Rightarrow> cache_manager \<Rightarrow> int \<Rightarrow> string \<Rightarrow> int option \<Rightarrow> pyval \<times> cache_manager" where
  "get H s now key max_age =
     (case get_try H s now key max_age of
        (Inr (Some v), s1) \<Rightarrow> (v, s1)
      | (Inr None, s1) \<Rightarrow> (PNone, s1)
      | (Inl e, s1) \<Rightarrow> (PNone, s1))"

text \<open>
  \<^verbatim>\<open>invalidate\<close> (lines 91-106): \<^verbatim>\<open>pop(key, None)\<close>, then \<^verbatim>\<open>unlink\<close> if the file exists.
  The first component is the exception the body raised, if any.
\<close>

definition invalidate_try ::
  "(string \<Rightarrow> string) \<Rightarrow> cache_manager \<Rightarrow> string \<Rightarrow> exn option \<times> cache_manager" where
  "invalidate_try H s key =
     (let s1 = s\<lparr>memory_cache := AList.delete key (memory_cache s)\<rparr>;
          cache_file = get_cache_file_path H key
      in if file_exists s1 cache_file
         then (case unlink s1 cache_file of
                 Inl e \<Rightarrow> (Some e, s1)
               | Inr s2 \<Rightarrow> (None, s2))
         else (None, s1))"

definition invalidate :: "(string \<Rightarrow> string) \<Rightarrow> cache_manager \<Rightarrow> string \<Rightarrow> cache_manager" where
  "invalidate H s key = snd (invalidate_try H s key)"

text \<open>
  \<^verbatim>\<open>clear\<close> (lines 108-122): the loop over the files that \<^verbatim>\<open>glob\<close> listed stops at the
  first \<^verbatim>\<open>unlink\<close> that raises.
\<close>

fun unlink_all :: "cache_manager \<Rightarrow> string list \<Rightarrow> exn option \<times> cache_manager" where
  "unlink_all s [] = (None, s)"
| "unlink_all s (cache_file # fs) =
     (case unlink s cache_file of
        Inl e \<Rightarrow> (Some e, s)
      | Inr s1 \<Rightarrow> unlink_all s1 fs)"

definition clear_try :: "cache_manager \<Rightarrow> exn option \<times> cache_manager" where
  "clear_try s = (let s1 = s\<lparr>memory_cache := []\<rparr> in unlink_all s1 (glob_cache s1))"

definition clear :: "cache_manager \<Rightarrow> cache_manager" where
  "clear s = snd (clear_try s)"

text \<open>
  \<^verbatim>\<open>cleanup\<close> (lines 159-177). The first loop runs over a copy of the keys of the
  memory dict, the second over the files that \<^verbatim>\<open>glob\<close> listed; an exception ends the
  whole operation and keeps what was deleted before it.
\<close>

fun cleanup_memory ::
  "int \<Rightarrow> int option \<Rightarrow> string list \<Rightarrow> (string \<times> pyval) list
     \<Rightarrow> exn option \<times> (string \<times> pyval) list" where
  "cleanup_memory now max_age [] m = (None, m)"
| "cleanup_memory now max_age (key # ks) m =
     (case map_of m key of
        None \<Rightarrow> (Some KeyError, m)
      | Some entry \<Rightarrow>
          (case is_cache_valid now entry max_age of
             Inl e \<Rightarrow> (Some e, m)
           | Inr True \<Rightarrow> cleanup_memory now max_age ks m
           | Inr False \<Rightarrow> cleanup_memory now max_age ks (AList.delete key m)))"

fun cleanup_disk ::
  "int \<Rightarrow> int option \<Rightarrow> string list \<Rightarrow> cache_manager \<Rightarrow> exn option \<times> cache_manager" where
  "cleanup_disk now max_age [] s = (None, s)"
| "cleanup_disk now max_age (cache_file # fs) s =
     (let cached_data = read_cache_file s cache_file in
      if \<not> truthy cached_data then cleanup_disk now max_age fs s
      else
        (case is_cache_valid now cached_data max_age of
           Inl e \<Rightarrow> (Some e, s)
         | Inr True \<Rightarrow> cleanup_disk now max_age fs s
         | Inr False \<Rightarrow>
             (case unlink s cache_file of
                Inl e \<Rightarrow> (Some e, s)
              | Inr s1 \<Rightarrow> cleanup_disk now max_age fs s1)))"

definition cleanup_try :: "cache_manager \<Rightarrow> int \<Rightarrow> int option \<Rightarrow> exn option \<times> cache_manager" where
  "cleanup_try s now max_age =
     (case cleanup_memory now max_age (map fst (memory_cache s)) (memory_cache s) of
        (Some e, m) \<Rightarrow> (Some e, s\<lparr>memory_cache := m\<rparr>)
      | (None, m) \<Rightarrow>
          (let s1 = s\<lparr>memory_cache := m\<rparr> in cleanup_disk now max_age (glob_cache s1) s1))"

definition cleanup :: "cache_manager \<Rightarrow> int \<Rightarrow> int option \<Rightarrow> cache_manager" where
  "cleanup s now max_age = snd (cleanup_try s now max_age)"

text \<open>
  \<^verbatim>\<open>__init__\<close> (lines 15-20): a new instance over the directory of \<open>s\<close> starts with an
  empty memory dict. \<open>empty_cache\<close> is a new instance over an empty directory on a file
  system where nothing fails.
\<close>

definition init :: "cache_manager \<Rightarrow> cache_manager" where
  "init s = s\<lparr>memory_cache := []\<rparr>"

definition empty_cache :: cache_manager where
  "empty_cache = \<lparr>memory_cache = [], cache_dir = [], read_fails = {}, write_fails = {},
     write_truncates = {}, unlink_fails = {}\<rparr>"

section \<open>The validity rule in the words of the specification\<close>

text \<open>
  The three branches as the specification writes them, for an entry of age \<open>age\<close>
  (microseconds) with an optional stored ttl (seconds) and an optional \<open>max_age\<close>
  argument (microseconds).
\<close>

fun spec_valid :: "int option \<Rightarrow> rat option \<Rightarrow> int \<Rightarrow> bool" where
  "spec_valid None ttl age = True"
| "spec_valid (Some m) (Some t) age = (seconds age < t)"
| "spec_valid (Some m) None age = (age < m)"

text \<open>The same rule with a zero-length \<open>max_age\<close> and a zero ttl read as absent.\<close>

definition nonzero :: "'a::zero option \<Rightarrow> 'a option" where
  "nonzero x = (case x of None \<Rightarrow> None | Some d \<Rightarrow> if d = 0 then None else Some d)"

text \<open>An entry with a timestamp and a ttl field that is None or a number.\<close>

definition entry_of :: "int \<Rightarrow> rat option \<Rightarrow> pyval \<Rightarrow> pyval" where
  "entry_of created_at ttl data =
     PDict [(''timestamp'', PDate created_at),
            (''ttl'', (case ttl of None \<Rightarrow> PNone | Some t \<Rightarrow> PNum t)),
            (''data'', data)]"

section \<open>What cleanup meets\<close>

text \<open>
  An entry is \<open>expired\<close> when the validity check answers False, and \<open>checks\<close> when the
  check raises nothing. For a file of the directory, \<open>record_expired\<close> is the condition
  under which \<^verbatim>\<open>cleanup\<close> unlinks it (line 171), and \<open>record_ok\<close> says that the loop
  gets past it: if it reads as a true value then the check raises nothing and, when
  the record is expired, neither does \<^verbatim>\<open>unlink\<close>.
\<close>

definition expired :: "int \<Rightarrow> int option \<Rightarrow> pyval \<Rightarrow> bool" where
  "expired now max_age e = (is_cache_valid now e max_age = Inr False)"

definition checks :: "int \<Rightarrow> int option \<Rightarrow> pyval \<Rightarrow> bool" where
  "checks now max_age e = (case is_cache_valid now e max_age of Inl x \<Rightarrow> False | Inr b \<Rightarrow> True)"

definition record_expired :: "int \<Rightarrow> int option \<Rightarrow> cache_manager \<Rightarrow> string \<Rightarrow> bool" where
  "record_expired now max_age s f =
     (truthy (read_cache_file s f) \<and> expired now max_age (read_cache_file s f))"

definition record_ok :: "int \<Rightarrow> int option \<Rightarrow> cache_manager \<Rightarrow> string \<Rightarrow> bool" where
  "record_ok now max_age s f =
     (let cd = read_cache_file s f in
      truthy cd \<longrightarrow> checks now max_age cd \<and> (expired now max_age cd \<longrightarrow> f \<notin> unlink_fails s))"

text \<open>
  How far the loops get. \<open>checked_keys\<close> are the keys that the memory loop of
  \<^verbatim>\<open>cleanup\<close> gets past: those before the first entry on which the check raises.
  \<open>swept_files\<close> are the files that its disk loop gets past: none if the memory loop
  raised, else those before the first file that is not \<open>record_ok\<close>. \<open>unlinked_files\<close>
  are the files that \<^verbatim>\<open>clear\<close> deletes: those before the first one on which \<^verbatim>\<open>unlink\<close>
  fails.
\<close>

definition entry_checks :: "int \<Rightarrow> int option \<Rightarrow> (string \<times> pyval) list \<Rightarrow> string \<Rightarrow> bool" where
  "entry_checks now max_age m k =
     (case map_of m k of None \<Rightarrow> False | Some e \<Rightarrow> checks now max_age e)"

definition checked_keys :: "int \<Rightarrow> int option \<Rightarrow> cache_manager \<Rightarrow> string list" where
  "checked_keys now max_age s =
     takeWhile (entry_checks now max_age (memory_cache s)) (map fst (memory_cache s))"

definition swept_files :: "int \<Rightarrow> int option \<Rightarrow> cache_manager \<Rightarrow> string list" where
  "swept_files now max_age s =
     (if checked_keys now max_age s = map fst (memory_cache s)
      then takeWhile (record_ok now max_age s) (glob_cache s)
      else [])"

definition unlinked_files :: "cache_manager \<Rightarrow> string list" where
  "unlinked_files s = takeWhile (\<lambda>f. f \<notin> unlink_fails s) (glob_cache s)"

text \<open>
  A dict lists each key once and a directory each name once; every operation keeps
  that (section "The listings hold each name once").
\<close>

definition listed_once :: "cache_manager \<Rightarrow> bool" where
  "listed_once s = (distinct (map fst (memory_cache s)) \<and> distinct (map fst (cache_dir s)))"

section \<open>Example states\<close>

text \<open>
  A cache with an old and a recent entry in both tiers, next to a file that does not
  decode and a file that \<^verbatim>\<open>glob("*.cache")\<close> does not match.
\<close>

definition two_entries :: cache_manager where
  "two_entries =
     \<lparr>memory_cache = [(''old'', entry_of 0 None (PStr ''u'')),
                      (''new'', entry_of 9000000 None (PStr ''v''))],
      cache_dir = [(''old.cache'', Json (entry_of 0 None (PStr ''u''))),
                   (''junk.cache'', Undecodable),
                   (''new.cache'', Json (entry_of 9000000 None (PStr ''v''))),
                   (''notes.txt'', Undecodable)],
      read_fails = {}, write_fails = {}, write_truncates = {}, unlink_fails = {}\<rparr>"

text \<open>
  A cache in trouble: a memory entry that is no dict behind an old one, a file that
  does not decode, a record without timestamp, a file that cannot be deleted, one
  that cannot be opened for writing and one on which the write fails after the open.
\<close>

definition troubled :: cache_manager where
  "troubled =
     \<lparr>memory_cache = [(''old'', entry_of 0 None (PStr ''u'')), (''bad'', PList [PNum 1])],
      cache_dir = [(''a.cache'', Undecodable),
                   (''old.cache'', Json (entry_of 0 None (PStr ''u''))),
                   (''b.cache'', Json (entry_of 0 None (PStr ''w''))),
                   (''c.cache'', Json (PDict [(''x'', PNum 1)]))],
      read_fails = {}, write_fails = {''w.cache'', ''old.cache''},
      write_truncates = {''old.cache''}, unlink_fails = {''b.cache''}\<rparr>"

section \<open>Basic facts\<close>

subsection \<open>Rounding to a double\<close>

text \<open>
  The double nearest to \<open>x\<close> is within \<open>|x| / 2^53\<close> of \<open>x\<close>. So the seconds of two
  durations below \<open>2^52\<close> microseconds, which differ by a microsecond at least, compare
  as doubles the way the durations compare.
\<close>

lemma round_half_even_error: "\<bar>of_int (round_half_even z) - z\<bar> \<le> 1 / 2"
proof -
  have "of_int \<lfloor>z\<rfloor> \<le> z" "z < of_int \<lfloor>z\<rfloor> + 1"
    by linarith+
  then show ?thesis
    by (auto simp: round_half_even_def Let_def abs_le_iff)
qed

lemma exponent_le:
  assumes "0 < x"
  shows "2 powi (exponent x) \<le> x"
proof (cases "1 \<le> x")
  case True
  let ?n = "\<lfloor>x\<rfloor>"
  from True have n: "0 < ?n" by linarith
  then have b: "1 \<le> bitlen ?n"
    by (metis bitlen_eq_zero_iff bitlen_nonneg int_one_le_iff_zero_less less_le not_less)
  from bitlen_bounds [OF n] have "(2 :: int) ^ nat (bitlen ?n - 1) \<le> ?n" ..
  then have "(of_int ((2 :: int) ^ nat (bitlen ?n - 1)) :: rat) \<le> of_int ?n"
    by (rule iffD2 [OF of_int_le_iff])
  also have "\<dots> \<le> x" by linarith
  finally have "(2 :: rat) ^ nat (bitlen ?n - 1) \<le> x" by simp
  with True b show ?thesis
    by (simp add: exponent_def power_int_nonneg_exp)
next
  case False
  let ?c = "\<lceil>1 / x\<rceil>"
  from False assms have y: "1 < 1 / x" by (simp add: field_simps)
  then have c: "0 < ?c - 1" by linarith
  let ?b = "bitlen (?c - 1)"
  from bitlen_bounds [OF c] have "?c - 1 < 2 ^ nat ?b" ..
  then have "?c \<le> 2 ^ nat ?b" by linarith
  then have "(of_int ?c :: rat) \<le> of_int (2 ^ nat ?b)"
    by (rule iffD2 [OF of_int_le_iff])
  also have "(of_int (2 ^ nat ?b) :: rat) = 2 ^ nat ?b" by simp
  finally have "(of_int ?c :: rat) \<le> 2 ^ nat ?b" .
  moreover have "1 / x \<le> of_int ?c" by linarith
  ultimately have "1 / x \<le> (2 :: rat) ^ nat ?b" by linarith
  with assms have "1 / (2 :: rat) ^ nat ?b \<le> x"
    by (simp add: field_simps)
  moreover have "(2 :: rat) powi (- ?b) = 1 / 2 ^ nat ?b"
    by (simp add: power_int_minus_divide power_int_nonneg_exp bitlen_nonneg)
  ultimately show ?thesis using False
    by (simp add: exponent_def)
qed

lemma exponent_less:
  assumes "0 < x"
  shows "x < 2 powi (exponent x + 1)"
proof (cases "1 \<le> x")
  case True
  let ?n = "\<lfloor>x\<rfloor>"
  from True have n: "0 < ?n" by linarith
  from bitlen_bounds [OF n] have "?n < 2 ^ nat (bitlen ?n)" ..
  then have "?n + 1 \<le> 2 ^ nat (bitlen ?n)" by linarith
  then have "(of_int (?n + 1) :: rat) \<le> of_int (2 ^ nat (bitlen ?n))"
    by (rule iffD2 [OF of_int_le_iff])
  moreover have "x < of_int (?n + 1)" by linarith
  ultimately have "x < (2 :: rat) ^ nat (bitlen ?n)" by simp
  with True show ?thesis
    by (simp add: exponent_def power_int_nonneg_exp bitlen_nonneg)
next
  case False
  let ?c = "\<lceil>1 / x\<rceil>"
  from False assms have y: "1 < 1 / x" by (simp add: field_simps)
  then have c: "0 < ?c - 1" by linarith
  let ?b = "bitlen (?c - 1)"
  from c have b: "1 \<le> ?b"
    by (metis bitlen_eq_zero_iff bitlen_nonneg int_one_le_iff_zero_less less_le not_less)
  from bitlen_bounds [OF c] have "2 ^ nat (?b - 1) \<le> ?c - 1" ..
  then have "(of_int (2 ^ nat (?b - 1)) :: rat) \<le> of_int (?c - 1)"
    by (rule iffD2 [OF of_int_le_iff])
  moreover have "of_int (?c - 1) < 1 / x" by linarith
  ultimately have "(2 :: rat) ^ nat (?b - 1) < 1 / x" by simp
  with assms have "x < 1 / (2 :: rat) ^ nat (?b - 1)"
    by (simp add: field_simps)
  moreover have "(2 :: rat) powi (- ?b + 1) = 1 / 2 ^ nat (?b - 1)"
  proof -
    have "(2 :: rat) powi (- (?b - 1)) = 1 / 2 powi (?b - 1)"
      by (rule power_int_minus_divide)
    also have "(2 :: rat) powi (?b - 1) = 2 ^ nat (?b - 1)"
      using b by (simp add: power_int_nonneg_exp)
    finally show ?thesis by simp
  qed
  ultimately show ?thesis using False
    by (simp add: exponent_def)
qed

lemma to_double_error: "\<bar>to_double x - x\<bar> \<le> \<bar>x\<bar> / 2 ^ 53"
proof (cases "x = 0")
  case True
  then show ?thesis by (simp add: to_double_def)
next
  case False
  let ?e = "exponent \<bar>x\<bar>"
  let ?q = "(2 :: rat) powi (?e - 52)"
  let ?r = "of_int (round_half_even (\<bar>x\<bar> / ?q)) :: rat"
  have q: "0 < ?q" by simp
  have d: "to_double x = sgn x * (?q * ?r)"
    using False by (simp add: to_double_def Let_def)
  have "x = sgn x * \<bar>x\<bar>" by (simp add: sgn_mult_abs)
  then have "to_double x - x = sgn x * (?q * ?r - \<bar>x\<bar>)"
    by (simp add: d algebra_simps)
  then have "\<bar>to_double x - x\<bar> = \<bar>?q * ?r - \<bar>x\<bar>\<bar>"
    using False by (simp add: abs_mult abs_sgn_eq)
  also have "?q * ?r - \<bar>x\<bar> = ?q * (?r - \<bar>x\<bar> / ?q)"
    using q by (simp add: algebra_simps)
  also have "\<bar>\<dots>\<bar> = ?q * \<bar>?r - \<bar>x\<bar> / ?q\<bar>"
    using q by (simp add: abs_mult)
  also have "\<dots> \<le> ?q * (1 / 2)"
    using q round_half_even_error [of "\<bar>x\<bar> / ?q"]
    by (intro mult_left_mono) simp_all
  also have "\<dots> = (2 :: rat) powi ?e / 2 ^ 53"
    by (simp add: power_int_diff)
  also have "\<dots> \<le> \<bar>x\<bar> / 2 ^ 53"
    using exponent_le [of "\<bar>x\<bar>"] False by (simp add: divide_right_mono)
  finally show ?thesis .
qed


lemma seconds_less [simp]: "seconds a < seconds b \<longleftrightarrow> a < b"
  by (simp add: seconds_def divide_less_cancel)

lemma total_seconds_error: "\<bar>total_seconds d - seconds d\<bar> \<le> \<bar>seconds d\<bar> / 2 ^ 53"
  unfolding total_seconds_def by (rule to_double_error)

lemma total_seconds_strict_mono:
  assumes "\<bar>a\<bar> < 2 ^ 52" and "\<bar>b\<bar> < 2 ^ 52" and "a < b"
  shows "total_seconds a < total_seconds b"
proof -
  have ea: "total_seconds a \<le> seconds a + \<bar>seconds a\<bar> / 2 ^ 53"
    using total_seconds_error [of a] by linarith
  have eb: "seconds b - \<bar>seconds b\<bar> / 2 ^ 53 \<le> total_seconds b"
    using total_seconds_error [of b] by linarith
  have "\<bar>a\<bar> + \<bar>b\<bar> < 2 ^ 53 * (b - a)"
    using assms by simp
  then have "(of_int (\<bar>a\<bar> + \<bar>b\<bar>) :: rat) < of_int (2 ^ 53 * (b - a))"
    by (rule iffD2 [OF of_int_less_iff])
  then have "seconds a + \<bar>seconds a\<bar> / 2 ^ 53 < seconds b - \<bar>seconds b\<bar> / 2 ^ 53"
    by (simp add: seconds_def field_simps)
  with ea eb show ?thesis by linarith
qed

lemma total_seconds_less:
  assumes "\<bar>a\<bar> < 2 ^ 52" and "\<bar>b\<bar> < 2 ^ 52"
  shows "total_seconds a < total_seconds b \<longleftrightarrow> a < b"
proof
  assume "a < b"
  with assms show "total_seconds a < total_seconds b"
    by (rule total_seconds_strict_mono)
next
  assume l: "total_seconds a < total_seconds b"
  show "a < b"
  proof (rule ccontr)
    assume "\<not> a < b"
    then consider "a = b" | "b < a" by linarith
    then show False
    proof cases
      case 1
      with l show False by simp
    next
      case 2
      with assms have "total_seconds b < total_seconds a"
        by (intro total_seconds_strict_mono)
      with l show False by simp
    qed
  qed
qed

lemma total_seconds_eq_0 [simp]: "total_seconds d = 0 \<longleftrightarrow> d = 0"
proof
  assume z: "total_seconds d = 0"
  show "d = 0"
  proof (rule ccontr)
    assume "d \<noteq> 0"
    then have p: "0 < \<bar>seconds d\<bar>" by (simp add: seconds_def)
    from total_seconds_error [of d] z have "\<bar>seconds d\<bar> \<le> \<bar>seconds d\<bar> / 2 ^ 53"
      by simp
    with p show False by (simp add: field_simps)
  qed
next
  assume "d = 0"
  then show "total_seconds d = 0"
    by (simp add: total_seconds_def seconds_def to_double_def)
qed



text \<open>
  The bound is needed: from \<open>2^33\<close> seconds on, durations a microsecond apart round to
  the same double, and there an entry a microsecond short of its ttl is invalid.
\<close>

lemma total_seconds_collide: "total_seconds 8589934592000001 = total_seconds 8589934592000002"
  by code_simp

lemma is_cache_valid_beyond_the_bound:
  "is_cache_valid 8589934592000001 (cache_entry 0 (Some 8589934592000002) PNone) (Some 1)
     = Inr False"
  by code_simp

subsection \<open>Entries and the check\<close>

lemma is_cache_valid_None [simp]: "is_cache_valid now e None = Inr True"
  by (simp add: is_cache_valid_def)

lemma is_cache_valid_zero [simp]: "is_cache_valid now e (Some 0) = Inr True"
  by (simp add: is_cache_valid_def)

lemma py_getitem_cache_entry [simp]:
  "py_getitem (cache_entry t ttl d) ''data'' = Inr d"
  "py_getitem (cache_entry t ttl d) ''timestamp'' = Inr (PDate t)"
  by (simp_all add: cache_entry_def)

lemma truthy_cache_entry [simp]: "truthy (cache_entry t ttl d)"
  by (simp add: cache_entry_def)

lemma truthy_entry_of [simp]: "truthy (entry_of t ttl d)"
  by (simp add: entry_of_def)

lemma serializable_cache_entry [simp]:
  "serializable (cache_entry t ttl d) = serializable d"
  by (cases ttl) (simp_all add: cache_entry_def)

lemma is_cache_valid_cache_entry_ttl:
  "T \<noteq> 0 \<Longrightarrow> M \<noteq> 0 \<Longrightarrow> \<bar>T\<bar> < 2 ^ 52 \<Longrightarrow> \<bar>now - t0\<bar> < 2 ^ 52 \<Longrightarrow>
     is_cache_valid now (cache_entry t0 (Some T) v) (Some M) = Inr (now - t0 < T)"
  by (simp add: is_cache_valid_def cache_entry_def total_seconds_less)


subsection \<open>The file system\<close>

lemma endswith_append [simp]: "endswith suf (xs @ suf)"
  by (simp add: endswith_def)

lemma endswith_cache_file_path [simp]: "endswith ''.cache'' (get_cache_file_path H k)"
  by (simp add: get_cache_file_path_def)

lemma glob_cache_iff:
  "f \<in> set (glob_cache s) \<longleftrightarrow> endswith ''.cache'' f \<and> map_of (cache_dir s) f \<noteq> None"
  by (auto simp: glob_cache_def map_of_eq_None_iff)

lemma memory_update_fields [simp]:
  "glob_cache (s\<lparr>memory_cache := m\<rparr>) = glob_cache s"
  "read_cache_file (s\<lparr>memory_cache := m\<rparr>) f = read_cache_file s f"
  "file_exists (s\<lparr>memory_cache := m\<rparr>) f = file_exists s f"
  "record_ok now M (s\<lparr>memory_cache := m\<rparr>) f = record_ok now M s f"
  "record_expired now M (s\<lparr>memory_cache := m\<rparr>) f = record_expired now M s f"
  by (simp_all add: glob_cache_def read_cache_file_def file_exists_def record_ok_def
      record_expired_def)

lemma init_fields [simp]:
  "memory_cache (init s) = []" "cache_dir (init s) = cache_dir s"
  "read_fails (init s) = read_fails s" "write_fails (init s) = write_fails s"
  "write_truncates (init s) = write_truncates s" "unlink_fails (init s) = unlink_fails s"
  by (simp_all add: init_def)

lemma truthy_read_exists:
  "truthy (read_cache_file s f) \<Longrightarrow> map_of (cache_dir s) f \<noteq> None"
  by (auto simp: read_cache_file_def split: if_splits option.splits)

lemma read_cache_file_unlink:
  "unlink s f = Inr s1 \<Longrightarrow>
     read_cache_file s1 g = (if g = f then PNone else read_cache_file s g)"
  by (auto simp: unlink_def read_cache_file_def delete_conv' split: if_splits)


subsection \<open>The state after set\<close>

lemma memory_cache_set_op [simp]:
  "memory_cache (set_op H s now k v ttl) = AList.update k (cache_entry now ttl v) (memory_cache s)"
  by (simp add: set_op_def write_cache_file_def Let_def)

lemma cache_dir_set_op:
  "cache_dir (set_op H s now k v ttl) =
     (if get_cache_file_path H k \<in> write_fails s
      then (if get_cache_file_path H k \<in> write_truncates s
            then AList.update (get_cache_file_path H k) Undecodable (cache_dir s)
            else cache_dir s)
      else AList.update (get_cache_file_path H k)
             (if serializable v then Json (cache_entry now ttl v) else Undecodable) (cache_dir s))"
  by (simp add: set_op_def write_cache_file_def Let_def)

lemma faults_set_op [simp]:
  "read_fails (set_op H s now k v ttl) = read_fails s"
  "write_fails (set_op H s now k v ttl) = write_fails s"
  "write_truncates (set_op H s now k v ttl) = write_truncates s"
  "unlink_fails (set_op H s now k v ttl) = unlink_fails s"
  by (simp_all add: set_op_def write_cache_file_def Let_def)

lemma set_op_cannot_open:
  "get_cache_file_path H k \<in> write_fails s \<Longrightarrow> get_cache_file_path H k \<notin> write_truncates s \<Longrightarrow>
     set_op H s now k v ttl =
       s\<lparr>memory_cache := AList.update k (cache_entry now ttl v) (memory_cache s)\<rparr>"
  by (simp add: set_op_def write_cache_file_def Let_def)

lemma set_op_truncates:
  "(get_cache_file_path H k \<in> write_fails s \<and> get_cache_file_path H k \<in> write_truncates s)
     \<or> (get_cache_file_path H k \<notin> write_fails s \<and> \<not> serializable v) \<Longrightarrow>
     set_op H s now k v ttl =
       s\<lparr>memory_cache := AList.update k (cache_entry now ttl v) (memory_cache s),
         cache_dir := AList.update (get_cache_file_path H k) Undecodable (cache_dir s)\<rparr>"
  by (auto simp: set_op_def write_cache_file_def Let_def)

lemma set_op_written:
  "get_cache_file_path H k \<notin> write_fails s \<Longrightarrow> serializable v \<Longrightarrow>
     set_op H s now k v ttl =
       s\<lparr>memory_cache := AList.update k (cache_entry now ttl v) (memory_cache s),
         cache_dir := AList.update (get_cache_file_path H k) (Json (cache_entry now ttl v))
           (cache_dir s)\<rparr>"
  by (simp add: set_op_def write_cache_file_def Let_def)

subsection \<open>The two phases of get\<close>

lemma get_memory_zero: "get_memory s now k (Some 0) = get_memory s now k None"
  by (simp add: get_memory_def split: option.splits)

lemma get_disk_zero: "get_disk H s now k (Some 0) = get_disk H s now k None"
  by (simp add: get_disk_def Let_def)

lemma get_memory_set_op:
  "get_memory (set_op H s t0 k v ttl) now k max_age =
     (case is_cache_valid now (cache_entry t0 ttl v) max_age of
        Inl e \<Rightarrow> Inl e | Inr False \<Rightarrow> Inr None | Inr True \<Rightarrow> Inr (Some v))"
  by (simp add: get_memory_def update_conv' split: sum.splits bool.splits)

lemma get_disk_set_op_expired:
  assumes "get_cache_file_path H k \<notin> write_fails s"
    and "is_cache_valid now (cache_entry t0 ttl v) max_age = Inr False"
  shows "get_disk H (set_op H s t0 k v ttl) now k max_age = (Inr None, set_op H s t0 k v ttl)"
  using assms
  by (simp add: get_disk_def file_exists_def read_cache_file_def cache_dir_set_op update_conv'
      Let_def)

lemma get_disk_hit:
  assumes "get_cache_file_path H k \<notin> read_fails s"
    and "map_of (cache_dir s) (get_cache_file_path H k) = Some (Json e)"
    and "truthy e" and "is_cache_valid now e M = Inr True" and "py_getitem e ''data'' = Inr v"
  shows "get_disk H s now k M =
    (Inr (Some v), s\<lparr>memory_cache := AList.update k e (memory_cache s)\<rparr>)"
  using assms by (simp add: get_disk_def file_exists_def read_cache_file_def Let_def)

lemma get_unreadable:
  assumes "get_memory s now k M = Inr None"
    and "get_cache_file_path H k \<in> read_fails s
       \<or> map_of (cache_dir s) (get_cache_file_path H k) = Some Undecodable"
  shows "get H s now k M = (PNone, s)"
  using assms
  by (auto simp: get_def get_try_def get_disk_def read_cache_file_def Let_def)

lemma get_raises: "fst (get_try H s now k M) = Inl x \<Longrightarrow> fst (get H s now k M) = PNone"
  by (cases "get_try H s now k M") (auto simp: get_def)

subsection \<open>invalidate and clear\<close>

lemma invalidate_memory: "map_of (memory_cache (invalidate H s k)) k = None"
  by (simp add: invalidate_def invalidate_try_def unlink_def Let_def delete_conv' file_exists_def)

lemma invalidate_unlink_fails:
  "get_cache_file_path H k \<in> unlink_fails s \<Longrightarrow>
     invalidate H s k = s\<lparr>memory_cache := AList.delete k (memory_cache s)\<rparr>"
  by (simp add: invalidate_def invalidate_try_def unlink_def Let_def)


text \<open>
  With or without a failing \<^verbatim>\<open>unlink\<close>, the loop of \<^verbatim>\<open>clear\<close> deletes the files before the
  first one on which it fails.
\<close>

lemma unlink_all_exact:
  assumes "distinct fs" and "\<forall>f\<in>set fs. map_of (cache_dir s) f \<noteq> None"
  shows "snd (unlink_all s fs) =
    s\<lparr>cache_dir :=
      filter (\<lambda>p. fst p \<notin> set (takeWhile (\<lambda>f. f \<notin> unlink_fails s) fs)) (cache_dir s)\<rparr>"
  using assms
proof (induction fs arbitrary: s)
  case Nil
  then show ?case by simp
next
  case (Cons f fs)
  show ?case
  proof (cases "f \<in> unlink_fails s")
    case True
    then show ?thesis by (simp add: unlink_def)
  next
    case False
    let ?s1 = "s\<lparr>cache_dir := AList.delete f (cache_dir s)\<rparr>"
    from False Cons.prems have u: "unlink s f = Inr ?s1"
      by (simp add: unlink_def)
    have "snd (unlink_all ?s1 fs) =
      ?s1\<lparr>cache_dir :=
        filter (\<lambda>p. fst p \<notin> set (takeWhile (\<lambda>f. f \<notin> unlink_fails ?s1) fs)) (cache_dir ?s1)\<rparr>"
      using Cons.prems by (intro Cons.IH) (auto simp: delete_conv')
    with u False show ?thesis
      by (simp add: AList.delete_eq case_prod_unfold eq_commute [of f])
  qed
qed

lemma clear_exact:
  assumes "distinct (map fst (cache_dir s))"
  shows "clear s =
    s\<lparr>memory_cache := [],
      cache_dir := filter (\<lambda>p. fst p \<notin> set (unlinked_files s)) (cache_dir s)\<rparr>"
proof -
  let ?s1 = "s\<lparr>memory_cache := []\<rparr>"
  have d: "distinct (glob_cache ?s1)"
    using assms by (simp add: glob_cache_def distinct_map_filter)
  have "\<forall>f\<in>set (glob_cache ?s1). map_of (cache_dir ?s1) f \<noteq> None"
    by (auto simp: glob_cache_iff)
  from unlink_all_exact [OF d this] show ?thesis
    by (simp add: clear_def clear_try_def unlinked_files_def)
qed

subsection \<open>The loops of cleanup\<close>

lemma cleanup_memory_zero:
  "cleanup_memory now (Some 0) ks m = cleanup_memory now None ks m"
  by (induction ks arbitrary: m) (simp_all split: option.splits)

lemma cleanup_disk_zero:
  "cleanup_disk now (Some 0) fs s = cleanup_disk now None fs s"
  by (induction fs arbitrary: s) (simp_all add: Let_def)

lemma cleanup_memory_None:
  "set ks \<subseteq> fst ` set m \<Longrightarrow> cleanup_memory now None ks m = (None, m)"
proof (induction ks)
  case Nil
  then show ?case by simp
next
  case (Cons k ks)
  then obtain e where "map_of m k = Some e"
    by (cases "map_of m k") (auto simp: map_of_eq_None_iff)
  with Cons show ?case by simp
qed

lemma cleanup_disk_None: "cleanup_disk now None fs s = (None, s)"
  by (induction fs) (simp_all add: Let_def)

lemma cleanup_None: "cleanup s now None = s"
  by (simp add: cleanup_def cleanup_try_def cleanup_memory_None cleanup_disk_None)



text \<open>
  Whatever raises, each loop does its work on what comes before the first fault and
  nothing after it.
\<close>

lemma cleanup_memory_exact:
  assumes "distinct ks"
  shows "(fst (cleanup_memory now M ks m) = None
          \<longleftrightarrow> takeWhile (entry_checks now M m) ks = ks)
    \<and> (\<forall>k. map_of (snd (cleanup_memory now M ks m)) k =
         (if k \<in> set (takeWhile (entry_checks now M m) ks)
             \<and> (\<exists>e. map_of m k = Some e \<and> expired now M e)
          then None else map_of m k))"
  using assms
proof (induction ks arbitrary: m)
  case Nil
  then show ?case by simp
next
  case (Cons key ks)
  show ?case
  proof (cases "map_of m key")
    case None
    then show ?thesis by (simp add: entry_checks_def)
  next
    case (Some entry)
    show ?thesis
    proof (cases "is_cache_valid now entry M")
      case (Inl x)
      with Some show ?thesis by (simp add: entry_checks_def checks_def)
    next
      case (Inr b)
      with Some have p: "entry_checks now M m key"
        by (simp add: entry_checks_def checks_def)
      show ?thesis
      proof (cases b)
        case True
        with Inr have "\<not> expired now M entry" by (simp add: expired_def)
        moreover from Cons.prems have "distinct ks" by simp
        note Cons.IH [OF this, of m]
        ultimately show ?thesis
          using Some Inr True p by auto
      next
        case False
        let ?m = "AList.delete key m"
        from Cons.prems have k: "key \<notin> set ks" and d: "distinct ks" by simp_all
        have "entry_checks now M ?m k = entry_checks now M m k" if "k \<in> set ks" for k
          using that k by (auto simp: entry_checks_def delete_conv')
        then have t: "takeWhile (entry_checks now M ?m) ks = takeWhile (entry_checks now M m) ks"
          by (intro takeWhile_cong) auto
        from Inr False have x: "expired now M entry" by (simp add: expired_def)
        from Cons.IH [OF d, of ?m] Some Inr False p x k show ?thesis
          by (auto simp: t delete_conv' dest: set_takeWhileD)
      qed
    qed
  qed
qed

lemma cleanup_disk_exact:
  "memory_cache (snd (cleanup_disk now M fs s)) = memory_cache s
   \<and> (\<forall>g. map_of (cache_dir (snd (cleanup_disk now M fs s))) g =
        (if g \<in> set (takeWhile (record_ok now M s) fs) \<and> record_expired now M s g then None
         else map_of (cache_dir s) g))"
proof (induction fs arbitrary: s)
  case Nil
  then show ?case by simp
next
  case (Cons f fs)
  let ?cd = "read_cache_file s f"
  show ?case
  proof (cases "truthy ?cd")
    case False
    with Cons.IH [of s] show ?thesis
      by (simp add: Let_def record_ok_def record_expired_def)
  next
    case True
    show ?thesis
    proof (cases "is_cache_valid now ?cd M")
      case (Inl x)
      with True show ?thesis
        by (simp add: Let_def record_ok_def checks_def)
    next
      case (Inr b)
      then have c: "checks now M ?cd" by (simp add: checks_def)
      show ?thesis
      proof (cases b)
        case True
        with Inr have "\<not> expired now M ?cd" by (simp add: expired_def)
        with \<open>truthy ?cd\<close> Inr True c Cons.IH [of s] show ?thesis
          by (simp add: Let_def record_ok_def record_expired_def)
      next
        case False
        with Inr have x: "expired now M ?cd" by (simp add: expired_def)
        from \<open>truthy ?cd\<close> have ex: "map_of (cache_dir s) f \<noteq> None"
          by (rule truthy_read_exists)
        show ?thesis
        proof (cases "f \<in> unlink_fails s")
          case True
          with \<open>truthy ?cd\<close> Inr False x show ?thesis
            by (simp add: Let_def record_ok_def unlink_def)
        next
          case nf: False
          let ?s1 = "s\<lparr>cache_dir := AList.delete f (cache_dir s)\<rparr>"
          from nf ex have u: "unlink s f = Inr ?s1"
            by (simp add: unlink_def)
          have step: "cleanup_disk now M (f # fs) s = cleanup_disk now M fs ?s1"
            using \<open>truthy ?cd\<close> Inr False u by (simp add: Let_def)
          have r: "read_cache_file ?s1 g = (if g = f then PNone else read_cache_file s g)" for g
            using u by (rule read_cache_file_unlink)
          have okf: "record_ok now M s f"
            using c x nf by (simp add: record_ok_def Let_def)
          have "record_ok now M ?s1 g = record_ok now M s g" for g
            using okf by (cases "g = f") (simp_all add: record_ok_def Let_def r)
          then have t: "takeWhile (record_ok now M ?s1) fs = takeWhile (record_ok now M s) fs"
            by (intro takeWhile_cong) auto
          have x1: "record_expired now M ?s1 g = (g \<noteq> f \<and> record_expired now M s g)" for g
            by (simp add: record_expired_def r)
          have xf: "record_expired now M s f"
            using \<open>truthy ?cd\<close> x by (simp add: record_expired_def)
          from Cons.IH [of ?s1] show ?thesis
            unfolding step by (auto simp: t x1 okf xf delete_conv')
        qed
      qed
    qed
  qed
qed

lemma cleanup_exact:
  assumes "distinct (map fst (memory_cache s))"
  shows "map_of (memory_cache (cleanup s now M)) k =
      (case map_of (memory_cache s) k of
         None \<Rightarrow> None
       | Some e \<Rightarrow> if k \<in> set (checked_keys now M s) \<and> expired now M e then None else Some e)
    \<and> map_of (cache_dir (cleanup s now M)) g =
      (if g \<in> set (swept_files now M s) \<and> record_expired now M s g then None
       else map_of (cache_dir s) g)"
proof -
  let ?m = "memory_cache s"
  obtain x m' where cm: "cleanup_memory now M (map fst ?m) ?m = (x, m')"
    by (cases "cleanup_memory now M (map fst ?m) ?m")
  let ?s1 = "s\<lparr>memory_cache := m'\<rparr>"
  from cleanup_memory_exact [OF assms, of now M ?m] cm
  have x: "x = None \<longleftrightarrow> checked_keys now M s = map fst ?m"
    and m: "map_of m' k =
         (if k \<in> set (checked_keys now M s) \<and> (\<exists>e. map_of ?m k = Some e \<and> expired now M e)
          then None else map_of ?m k)"
    by (simp_all add: checked_keys_def)
  have mk: "map_of m' k =
      (case map_of ?m k of
         None \<Rightarrow> None
       | Some e \<Rightarrow> if k \<in> set (checked_keys now M s) \<and> expired now M e then None else Some e)"
    by (simp add: m split: option.splits)
  show ?thesis
  proof (cases x)
    case (Some ex)
    with cm have c: "cleanup s now M = ?s1"
      by (simp add: cleanup_def cleanup_try_def)
    from Some x have "swept_files now M s = []"
      by (simp add: swept_files_def)
    with c mk show ?thesis by simp
  next
    case None
    with cm have c: "cleanup s now M = snd (cleanup_disk now M (glob_cache ?s1) ?s1)"
      by (simp add: cleanup_def cleanup_try_def)
    from None x have sw: "swept_files now M s = takeWhile (record_ok now M s) (glob_cache s)"
      by (simp add: swept_files_def)
    have ro: "record_ok now M ?s1 = record_ok now M s"
      by (rule ext) simp
    from cleanup_disk_exact [of now M "glob_cache ?s1" ?s1] mk show ?thesis
      by (simp add: c sw ro)
  qed
qed

subsection \<open>The listings hold each name once\<close>

lemma listed_once_empty_cache: "listed_once empty_cache"
  by (simp add: listed_once_def empty_cache_def)

lemma listed_once_init: "listed_once s \<Longrightarrow> listed_once (init s)"
  by (simp add: listed_once_def)

lemma listed_once_set_op: "listed_once s \<Longrightarrow> listed_once (set_op H s now k v ttl)"
  by (simp add: listed_once_def cache_dir_set_op distinct_update)

lemma listed_once_unlink: "unlink s f = Inr s1 \<Longrightarrow> listed_once s \<Longrightarrow> listed_once s1"
  by (auto simp: unlink_def listed_once_def distinct_delete split: if_splits)

lemma listed_once_get: "listed_once s \<Longrightarrow> listed_once (snd (get H s now k M))"
  by (auto simp: get_def get_try_def get_disk_def listed_once_def distinct_update Let_def
      split: sum.splits option.splits bool.splits)

lemma listed_once_invalidate: "listed_once s \<Longrightarrow> listed_once (invalidate H s k)"
  by (auto simp: invalidate_def invalidate_try_def unlink_def listed_once_def distinct_delete
      Let_def)

lemma listed_once_unlink_all: "listed_once s \<Longrightarrow> listed_once (snd (unlink_all s fs))"
proof (induction fs arbitrary: s)
  case Nil
  then show ?case by simp
next
  case (Cons f fs)
  then show ?case
    by (cases "unlink s f") (auto dest: listed_once_unlink)
qed

lemma listed_once_clear: "listed_once s \<Longrightarrow> listed_once (clear s)"
  using listed_once_unlink_all [of "s\<lparr>memory_cache := []\<rparr>" "glob_cache s"]
  by (simp add: clear_def clear_try_def listed_once_def)

lemma distinct_cleanup_memory:
  "distinct (map fst m) \<Longrightarrow> distinct (map fst (snd (cleanup_memory now M ks m)))"
proof (induction ks arbitrary: m)
  case Nil
  then show ?case by simp
next
  case (Cons k ks)
  then show ?case
    by (auto simp: distinct_delete split: option.splits sum.splits bool.splits)
qed

lemma listed_once_cleanup_disk:
  "listed_once s \<Longrightarrow> listed_once (snd (cleanup_disk now M fs s))"
proof (induction fs arbitrary: s)
  case Nil
  then show ?case by simp
next
  case (Cons f fs)
  then show ?case
    by (auto simp: Let_def dest: listed_once_unlink split: sum.splits bool.splits)
qed

lemma listed_once_cleanup: "listed_once s \<Longrightarrow> listed_once (cleanup s now M)"
proof -
  assume a: "listed_once s"
  let ?m = "memory_cache s"
  obtain x m' where cm: "cleanup_memory now M (map fst ?m) ?m = (x, m')"
    by (cases "cleanup_memory now M (map fst ?m) ?m")
  from a distinct_cleanup_memory [of ?m now M "map fst ?m"] cm
  have l: "listed_once (s\<lparr>memory_cache := m'\<rparr>)"
    by (simp add: listed_once_def)
  show ?thesis
  proof (cases x)
    case None
    with cm l listed_once_cleanup_disk [of "s\<lparr>memory_cache := m'\<rparr>" now M "glob_cache s"]
    show ?thesis by (simp add: cleanup_def cleanup_try_def)
  next
    case (Some e)
    with cm l show ?thesis by (simp add: cleanup_def cleanup_try_def)
  qed
qed

section \<open>The validity check\<close>

text \<open>
  C1, as the code has it. For every entry whose timestamp field is an ISO string and
  whose ttl field is None or the seconds of a duration, as \<open>set\<close> stores it,
  \<open>is_cache_valid\<close> is the three-branch rule of the specification once a zero-length
  \<open>max_age\<close> is read as no \<open>max_age\<close> and a stored ttl of zero as no ttl: without a
  (nonzero) \<open>max_age\<close> the entry is valid at any age; with one and a (nonzero) stored ttl
  it is valid iff its age is below the ttl, whatever \<open>max_age\<close> is; with one and no ttl
  it is valid iff its age is below \<open>max_age\<close>. The age and the ttl are below \<open>2^52\<close>
  microseconds in magnitude (some 142 years): the check compares their seconds as
  doubles, and beyond that bound two durations a microsecond apart can round to the
  same double.
\<close>

theorem is_cache_valid_three_branches:
  assumes "py_getitem e ''timestamp'' = Inr (PDate created_at)"
    and "py_getitem e ''ttl'' =
           Inr (case ttl of None \<Rightarrow> PNone | Some T \<Rightarrow> PNum (total_seconds T))"
    and "\<bar>now - created_at\<bar> < 2 ^ 52"
    and "case ttl of None \<Rightarrow> True | Some T \<Rightarrow> \<bar>T\<bar> < 2 ^ 52"
  shows "is_cache_valid now e max_age =
     Inr (spec_valid (nonzero max_age) (map_option seconds (nonzero ttl)) (now - created_at))"
proof (cases "nonzero max_age")
  case None
  then show ?thesis
    by (cases max_age) (simp_all add: nonzero_def split: if_splits)
next
  case (Some m)
  then have m: "max_age = Some m" "m \<noteq> 0"
    by (cases max_age; simp add: nonzero_def split: if_splits)+
  show ?thesis
  proof (cases ttl)
    case None
    with assms m show ?thesis
      by (simp add: is_cache_valid_def nonzero_def)
  next
    case T: (Some T)
    with assms have b: "\<bar>T\<bar> < 2 ^ 52" by simp
    show ?thesis
    proof (cases "T = 0")
      case True
      with assms m T show ?thesis
        by (simp add: is_cache_valid_def nonzero_def)
    next
      case False
      with assms(1,2) m T total_seconds_less [OF assms(3) b] show ?thesis
        by (simp add: is_cache_valid_def nonzero_def)
    qed
  qed
qed

text \<open>
  The three branches at an entry written at time 0: a ttl of 2 s beats a \<open>max_age\<close> of
  60 s after 3 s and after 1 s, and without a ttl the \<open>max_age\<close> decides.
\<close>

theorem is_cache_valid_three_branches_witness:
  "is_cache_valid 3000000 (cache_entry 0 (Some 2000000) PNone) (Some 60000000) = Inr False
   \<and> is_cache_valid 1000000 (cache_entry 0 (Some 2000000) PNone) (Some 60000000) = Inr True
   \<and> is_cache_valid 3000000 (cache_entry 0 None PNone) (Some 60000000) = Inr True"
proof -
  note a = is_cache_valid_three_branches
    [where e = "cache_entry 0 (Some 2000000) PNone" and created_at = 0
      and ttl = "Some 2000000" and now = 3000000 and max_age = "Some 60000000"]
  note b = is_cache_valid_three_branches
    [where e = "cache_entry 0 (Some 2000000) PNone" and created_at = 0
      and ttl = "Some 2000000" and now = 1000000 and max_age = "Some 60000000"]
  note c = is_cache_valid_three_branches
    [where e = "cache_entry 0 None PNone" and created_at = 0
      and ttl = None and now = 3000000 and max_age = "Some 60000000"]
  have t: "py_getitem (cache_entry 0 (Some 2000000) PNone) ''ttl''
      = Inr (PNum (total_seconds 2000000))"
    "py_getitem (cache_entry 0 None PNone) ''ttl'' = Inr PNone"
    by (simp_all add: cache_entry_def)
  from a b c show ?thesis
    by (simp add: t nonzero_def)
qed

text \<open>
  C1 as the specification words it fails when the \<open>max_age\<close> that is supplied is the
  zero timedelta: an entry with a ttl of 5 s is 10 s old, the rule of the specification
  makes it invalid, and the check answers True.
\<close>

theorem is_cache_valid_zero_max_age_counterexample:
  "is_cache_valid 10000000 (entry_of 0 (Some 5) PNone) (Some 0) = Inr True
   \<and> \<not> spec_valid (Some 0) (Some 5) (10000000 - 0)"
  by (simp add: is_cache_valid_def seconds_def)

section \<open>Writing and reading back\<close>

text \<open>
  C2. For every key \<open>k\<close> and payload \<open>v\<close>, in every state of the cache and of the file
  system, \<open>set(k, v)\<close> followed by \<open>get(k)\<close> without \<open>max_age\<close> returns \<open>v\<close> (at once, and
  at any later time too).
\<close>

theorem set_then_get_returns_value:
  "fst (get H (set_op H s t0 k v None) t1 k None) = v"
  by (simp add: get_def get_try_def get_memory_def update_conv')

theorem set_then_get_returns_value_witness:
  "fst (get id (set_op id empty_cache 0 ''k'' (PDict [(''x'', PNum 1)]) None) 0 ''k'' None)
     = PDict [(''x'', PNum 1)]"
  by (rule set_then_get_returns_value)

section \<open>An entry with a ttl\<close>

text \<open>
  C3, as the code has it. For every key \<open>k\<close>, payload \<open>v\<close> and nonzero duration \<open>T\<close>,
  after \<open>set(k, v, ttl=T)\<close> whose write raised nothing, \<open>get(k, max_age=M)\<close> with any
  nonzero \<open>M\<close> returns \<open>v\<close> while less than \<open>T\<close> has elapsed since the write and absent
  once \<open>T\<close> or more has elapsed, whatever \<open>M\<close> is. Here \<open>T\<close> and the elapsed time are below
  \<open>2^52\<close> microseconds in magnitude (some 142 years), where the doubles that the check
  compares tell durations a microsecond apart. A \<open>get\<close> without \<open>max_age\<close> or with a
  zero-length one returns \<open>v\<close> at any time.
\<close>

theorem get_after_set_with_ttl:
  assumes "T \<noteq> 0" and "M \<noteq> 0" and "get_cache_file_path H k \<notin> write_fails s"
    and "\<bar>T\<bar> < 2 ^ 52" and "\<bar>t1 - t0\<bar> < 2 ^ 52"
  shows "fst (get H (set_op H s t0 k v (Some T)) t1 k (Some M)) = (if t1 - t0 < T then v else PNone)
    \<and> fst (get H (set_op H s t0 k v (Some T)) t1 k None) = v
    \<and> fst (get H (set_op H s t0 k v (Some T)) t1 k (Some 0)) = v"
proof -
  let ?s = "set_op H s t0 k v (Some T)"
  have "fst (get H ?s t1 k (Some M)) = (if t1 - t0 < T then v else PNone)"
  proof (cases "t1 - t0 < T")
    case True
    with assms show ?thesis
      by (simp add: get_def get_try_def get_memory_set_op is_cache_valid_cache_entry_ttl)
  next
    case False
    with assms have "is_cache_valid t1 (cache_entry t0 (Some T) v) (Some M) = Inr False"
      by (simp add: is_cache_valid_cache_entry_ttl)
    with assms False show ?thesis
      by (simp add: get_def get_try_def get_memory_set_op get_disk_set_op_expired)
  qed
  moreover have "fst (get H ?s t1 k None) = v"
    by (simp add: get_def get_try_def get_memory_set_op)
  moreover have "fst (get H ?s t1 k (Some 0)) = v"
    by (simp add: get_def get_try_def get_memory_set_op)
  ultimately show ?thesis by simp
qed

text \<open>A ttl of 2 s and a \<open>max_age\<close> of 60 s: the value after 1 s, absent after 3 s.\<close>

theorem get_after_set_with_ttl_witness:
  "(2000000 :: int) \<noteq> 0 \<and> (60000000 :: int) \<noteq> 0
   \<and> get_cache_file_path id ''k'' \<notin> write_fails empty_cache
   \<and> \<bar>2000000 :: int\<bar> < 2 ^ 52 \<and> \<bar>1000000 - 0 :: int\<bar> < 2 ^ 52 \<and> \<bar>3000000 - 0 :: int\<bar> < 2 ^ 52
   \<and> fst (get id (set_op id empty_cache 0 ''k'' (PStr ''v'') (Some 2000000)) 1000000 ''k''
        (Some 60000000)) = PStr ''v''
   \<and> fst (get id (set_op id empty_cache 0 ''k'' (PStr ''v'') (Some 2000000)) 3000000 ''k''
        (Some 60000000)) = PNone"
proof -
  have h: "(2000000 :: int) \<noteq> 0" "(60000000 :: int) \<noteq> 0"
    "get_cache_file_path id ''k'' \<notin> write_fails empty_cache" "\<bar>2000000 :: int\<bar> < 2 ^ 52"
    by (simp_all add: empty_cache_def)
  have b: "\<bar>1000000 - 0 :: int\<bar> < 2 ^ 52" "\<bar>3000000 - 0 :: int\<bar> < 2 ^ 52"
    by simp_all
  from get_after_set_with_ttl [OF h b(1), of "PStr ''v''"]
    get_after_set_with_ttl [OF h b(2), of "PStr ''v''"] h
  show ?thesis by simp
qed

text \<open>
  C3 as the specification words it fails for the \<open>max_age\<close> values None and zero
  timedelta: 3 s after a write with a ttl of 2 s, \<open>get\<close> still returns the value.
\<close>

theorem get_after_ttl_elapsed_counterexample:
  "fst (get id (set_op id empty_cache 0 ''k'' (PStr ''v'') (Some 2000000)) 3000000 ''k'' (Some 0))
     = PStr ''v''
   \<and> fst (get id (set_op id empty_cache 0 ''k'' (PStr ''v'') (Some 2000000)) 3000000 ''k'' None)
     = PStr ''v''"
  by (simp add: get_def get_try_def get_memory_set_op)

section \<open>The scenario of the specification\<close>

text \<open>
  C4, as the code has it. On a new cache over an empty directory, after
  \<open>set("a", {"x": 1}, ttl=2s)\<close>: an immediate \<open>get("a")\<close> returns \<open>{"x": 1}\<close>; 3 s later
  \<open>get("a")\<close> without \<open>max_age\<close> still returns \<open>{"x": 1}\<close>, and \<open>cleanup()\<close> without
  \<open>max_age\<close> changes nothing, so the durable record is still there. With a nonzero
  \<open>max_age\<close>, \<open>get("a", max_age)\<close> returns absent 3 s after the write and
  \<open>cleanup(max_age)\<close> removes the entry from both tiers.
\<close>

theorem ttl_scenario:
  "get H (set_op H empty_cache t0 ''a'' (PDict [(''x'', PNum 1)]) (Some 2000000)) t0 ''a'' None
     = (PDict [(''x'', PNum 1)],
        set_op H empty_cache t0 ''a'' (PDict [(''x'', PNum 1)]) (Some 2000000))
   \<and> get H (set_op H empty_cache t0 ''a'' (PDict [(''x'', PNum 1)]) (Some 2000000))
        (t0 + 3000000) ''a'' None
     = (PDict [(''x'', PNum 1)],
        set_op H empty_cache t0 ''a'' (PDict [(''x'', PNum 1)]) (Some 2000000))
   \<and> cleanup (set_op H empty_cache t0 ''a'' (PDict [(''x'', PNum 1)]) (Some 2000000))
        (t0 + 3000000) None
     = set_op H empty_cache t0 ''a'' (PDict [(''x'', PNum 1)]) (Some 2000000)
   \<and> file_exists (set_op H empty_cache t0 ''a'' (PDict [(''x'', PNum 1)]) (Some 2000000))
        (get_cache_file_path H ''a'')
   \<and> (M \<noteq> 0 \<longrightarrow>
        get H (set_op H empty_cache t0 ''a'' (PDict [(''x'', PNum 1)]) (Some 2000000))
          (t0 + 3000000) ''a'' (Some M)
          = (PNone, set_op H empty_cache t0 ''a'' (PDict [(''x'', PNum 1)]) (Some 2000000))
        \<and> cleanup (set_op H empty_cache t0 ''a'' (PDict [(''x'', PNum 1)]) (Some 2000000))
            (t0 + 3000000) (Some M)
          = empty_cache)"
proof -
  let ?v = "PDict [(''x'', PNum 1)]"
  let ?s1 = "set_op H empty_cache t0 ''a'' ?v (Some 2000000)"
  let ?e = "cache_entry t0 (Some 2000000) ?v"
  let ?f = "get_cache_file_path H ''a''"
  have s1: "?s1 = \<lparr>memory_cache = [(''a'', ?e)], cache_dir = [(?f, Json ?e)],
     read_fails = {}, write_fails = {}, write_truncates = {}, unlink_fails = {}\<rparr>"
    by (simp add: set_op_def empty_cache_def write_cache_file_def Let_def)
  have a: "get H ?s1 t0 ''a'' None = (?v, ?s1)"
    by (simp add: get_def get_try_def get_memory_set_op)
  have b: "get H ?s1 (t0 + 3000000) ''a'' None = (?v, ?s1)"
    by (simp add: get_def get_try_def get_memory_set_op)
  have c: "file_exists ?s1 ?f"
    by (simp add: s1 file_exists_def)
  have d: "get H ?s1 (t0 + 3000000) ''a'' (Some M) = (PNone, ?s1)" if "M \<noteq> 0"
    using that
    by (simp add: get_def get_try_def get_memory_set_op get_disk_set_op_expired
        is_cache_valid_cache_entry_ttl empty_cache_def)
  have e: "cleanup ?s1 (t0 + 3000000) (Some M) = empty_cache" if "M \<noteq> 0"
    unfolding s1 using that
    by (simp add: cleanup_def cleanup_try_def glob_cache_def read_cache_file_def unlink_def
        is_cache_valid_cache_entry_ttl Let_def empty_cache_def)
  from a b c d e show ?thesis by (simp add: cleanup_None)
qed

theorem ttl_scenario_witness:
  "(60000000 :: int) \<noteq> 0
   \<and> fst (get id (set_op id empty_cache 0 ''a'' (PDict [(''x'', PNum 1)]) (Some 2000000))
        3000000 ''a'' (Some 60000000)) = PNone
   \<and> cleanup (set_op id empty_cache 0 ''a'' (PDict [(''x'', PNum 1)]) (Some 2000000))
        3000000 (Some 60000000) = empty_cache"
  using ttl_scenario [of id 0 60000000] by simp

text \<open>
  C4 as the specification words it fails: without \<open>max_age\<close>, 3 s after the write
  \<open>get("a")\<close> returns \<open>{"x": 1}\<close>, not absent, and the file of \<open>"a"\<close> is still there after
  the \<open>cleanup()\<close> that follows.
\<close>

theorem ttl_scenario_counterexample:
  "fst (get id (set_op id empty_cache 0 ''a'' (PDict [(''x'', PNum 1)]) (Some 2000000))
        3000000 ''a'' None) = PDict [(''x'', PNum 1)]
   \<and> file_exists
        (cleanup
          (snd (get id (set_op id empty_cache 0 ''a'' (PDict [(''x'', PNum 1)]) (Some 2000000))
                  3000000 ''a'' None))
          3000000 None)
        (get_cache_file_path id ''a'')"
  by (simp add: cleanup_None get_def get_try_def get_memory_set_op file_exists_def
      cache_dir_set_op empty_cache_def)

section \<open>cleanup\<close>




section \<open>Promotion from the durable tier\<close>

text \<open>
  C6. A \<open>get\<close> that misses the memory tier (the key is absent there, or its entry is
  invalid) and finds a readable, valid record in the file of the key returns the data of
  the record and leaves the record in the memory tier under the key. In particular,
  after \<open>set(k, d, ttl)\<close> whose record was written (the file could be opened and \<open>d\<close>
  serialized), a new instance over the same directory, with an empty memory tier,
  answers \<open>get(k)\<close> with \<open>d\<close> while the entry is valid, and its memory tier then holds the
  entry.
\<close>

theorem get_promotes_durable_record:
  "(get_memory s now k M = Inr None
      \<and> get_cache_file_path H k \<notin> read_fails s
      \<and> map_of (cache_dir s) (get_cache_file_path H k) = Some (Json e)
      \<and> truthy e \<and> is_cache_valid now e M = Inr True \<and> py_getitem e ''data'' = Inr v
    \<longrightarrow> get H s now k M = (v, s\<lparr>memory_cache := AList.update k e (memory_cache s)\<rparr>))
   \<and> (get_cache_file_path H k \<notin> write_fails s0 \<and> get_cache_file_path H k \<notin> read_fails s0
      \<and> serializable d \<and> is_cache_valid now (cache_entry t0 ttl d) M = Inr True
    \<longrightarrow> get H (init (set_op H s0 t0 k d ttl)) now k M =
          (d, (init (set_op H s0 t0 k d ttl))\<lparr>memory_cache := [(k, cache_entry t0 ttl d)]\<rparr>))"
proof (intro conjI impI)
  assume a: "get_memory s now k M = Inr None
      \<and> get_cache_file_path H k \<notin> read_fails s
      \<and> map_of (cache_dir s) (get_cache_file_path H k) = Some (Json e)
      \<and> truthy e \<and> is_cache_valid now e M = Inr True \<and> py_getitem e ''data'' = Inr v"
  then have "get_disk H s now k M =
      (Inr (Some v), s\<lparr>memory_cache := AList.update k e (memory_cache s)\<rparr>)"
    by (intro get_disk_hit) simp_all
  with a show "get H s now k M = (v, s\<lparr>memory_cache := AList.update k e (memory_cache s)\<rparr>)"
    by (simp add: get_def get_try_def)
next
  let ?s = "init (set_op H s0 t0 k d ttl)"
  let ?e = "cache_entry t0 ttl d"
  assume b: "get_cache_file_path H k \<notin> write_fails s0 \<and> get_cache_file_path H k \<notin> read_fails s0
      \<and> serializable d \<and> is_cache_valid now ?e M = Inr True"
  have m: "get_memory ?s now k M = Inr None"
    by (simp add: get_memory_def)
  have "get_disk H ?s now k M =
      (Inr (Some d), ?s\<lparr>memory_cache := AList.update k ?e (memory_cache ?s)\<rparr>)"
    using b by (intro get_disk_hit) (simp_all add: cache_dir_set_op update_conv')
  with m show "get H ?s now k M = (d, ?s\<lparr>memory_cache := [(k, ?e)]\<rparr>)"
    by (simp add: get_def get_try_def)
qed

text \<open>
  At time 10 s with a \<open>max_age\<close> of 5 s: a new instance over the directory of
  \<open>two_entries\<close> finds the record written at 9 s, and a new instance after
  \<open>set("new", {"x": 1})\<close> at 9 s on an empty cache finds that one.
\<close>

theorem get_promotes_durable_record_witness:
  "get id (init two_entries) 10000000 ''new'' (Some 5000000)
     = (PStr ''v'',
        (init two_entries)\<lparr>memory_cache := [(''new'', entry_of 9000000 None (PStr ''v''))]\<rparr>)
   \<and> memory_cache (init (set_op id empty_cache 9000000 ''new'' (PDict [(''x'', PNum 1)]) None))
       = []
   \<and> get id (init (set_op id empty_cache 9000000 ''new'' (PDict [(''x'', PNum 1)]) None))
        10000000 ''new'' (Some 5000000)
     = (PDict [(''x'', PNum 1)],
        (init (set_op id empty_cache 9000000 ''new'' (PDict [(''x'', PNum 1)]) None))
          \<lparr>memory_cache := [(''new'', cache_entry 9000000 None (PDict [(''x'', PNum 1)]))]\<rparr>)"
proof -
  have h1: "get_memory (init two_entries) 10000000 ''new'' (Some 5000000) = Inr None
      \<and> get_cache_file_path id ''new'' \<notin> read_fails (init two_entries)
      \<and> map_of (cache_dir (init two_entries)) (get_cache_file_path id ''new'')
          = Some (Json (entry_of 9000000 None (PStr ''v'')))
      \<and> truthy (entry_of 9000000 None (PStr ''v''))
      \<and> is_cache_valid 10000000 (entry_of 9000000 None (PStr ''v'')) (Some 5000000) = Inr True
      \<and> py_getitem (entry_of 9000000 None (PStr ''v'')) ''data'' = Inr (PStr ''v'')"
    by (simp add: get_memory_def two_entries_def get_cache_file_path_def is_cache_valid_def
        entry_of_def)
  have h2: "get_cache_file_path id ''new'' \<notin> write_fails empty_cache
      \<and> get_cache_file_path id ''new'' \<notin> read_fails empty_cache
      \<and> serializable (PDict [(''x'', PNum 1)])
      \<and> is_cache_valid 10000000 (cache_entry 9000000 None (PDict [(''x'', PNum 1)]))
           (Some 5000000) = Inr True"
    by (simp add: empty_cache_def is_cache_valid_def cache_entry_def)
  from get_promotes_durable_record
    [where s = "init two_entries" and now = 10000000 and k = "''new''" and M = "Some 5000000"
      and H = id and e = "entry_of 9000000 None (PStr ''v'')" and v = "PStr ''v''"
      and ?s0.0 = empty_cache and d = "PDict [(''x'', PNum 1)]" and ?t0.0 = 9000000
      and ttl = None]
    h1 h2
  show ?thesis by simp
qed

section \<open>invalidate\<close>

text \<open>
  C7, as the code has it. \<open>invalidate(k)\<close> always removes \<open>k\<close> from the memory tier.
  When \<^verbatim>\<open>unlink\<close> does not fail on the file of \<open>k\<close>, the body of \<open>invalidate\<close> raises
  nothing, whether or not the key was present in either tier, the file of \<open>k\<close> is gone
  afterwards, and \<open>get(k)\<close> with any \<open>max_age\<close>, at any time, returns absent and changes
  nothing. When \<^verbatim>\<open>unlink\<close> fails on the file of \<open>k\<close>, the directory is left as it was.
\<close>

theorem invalidate_then_get_absent:
  "map_of (memory_cache (invalidate H s k)) k = None
   \<and> (get_cache_file_path H k \<notin> unlink_fails s \<longrightarrow>
        fst (invalidate_try H s k) = None
        \<and> \<not> file_exists (invalidate H s k) (get_cache_file_path H k)
        \<and> get H (invalidate H s k) now k M = (PNone, invalidate H s k))
   \<and> (get_cache_file_path H k \<in> unlink_fails s \<longrightarrow>
        invalidate H s k = s\<lparr>memory_cache := AList.delete k (memory_cache s)\<rparr>)"
proof (intro conjI impI)
  show "map_of (memory_cache (invalidate H s k)) k = None"
    by (rule invalidate_memory)
next
  assume u: "get_cache_file_path H k \<notin> unlink_fails s"
  then show "fst (invalidate_try H s k) = None"
    by (simp add: invalidate_try_def unlink_def Let_def file_exists_def)
  from u show nf: "\<not> file_exists (invalidate H s k) (get_cache_file_path H k)"
    by (simp add: invalidate_def invalidate_try_def unlink_def Let_def file_exists_def
        delete_conv')
  have "get_memory (invalidate H s k) now k M = Inr None"
    by (simp add: get_memory_def invalidate_memory)
  with nf show "get H (invalidate H s k) now k M = (PNone, invalidate H s k)"
    by (simp add: get_def get_try_def get_disk_def)
next
  assume "get_cache_file_path H k \<in> unlink_fails s"
  then show "invalidate H s k = s\<lparr>memory_cache := AList.delete k (memory_cache s)\<rparr>"
    by (rule invalidate_unlink_fails)
qed

text \<open>
  In \<open>two_entries\<close> the key \<open>"new"\<close> is valid at 10 s; after \<open>invalidate("new")\<close> it is
  absent from both tiers and for \<open>get\<close>. The key \<open>"none"\<close> is in neither tier and
  \<open>invalidate("none")\<close> raises nothing and changes nothing. In \<open>troubled\<close> the file of
  \<open>"b"\<close> cannot be deleted and \<open>invalidate("b")\<close> leaves the state as it is.
\<close>

theorem invalidate_then_get_absent_witness:
  "get_cache_file_path id ''new'' \<notin> unlink_fails two_entries
   \<and> fst (get id two_entries 10000000 ''new'' (Some 5000000)) = PStr ''v''
   \<and> fst (get id (invalidate id two_entries ''new'') 10000000 ''new'' (Some 5000000)) = PNone
   \<and> map_of (memory_cache (invalidate id two_entries ''new'')) ''new'' = None
   \<and> \<not> file_exists (invalidate id two_entries ''new'') ''new.cache''
   \<and> invalidate_try id two_entries ''none'' = (None, two_entries)
   \<and> get_cache_file_path id ''b'' \<in> unlink_fails troubled
   \<and> invalidate id troubled ''b'' = troubled"
proof -
  have u: "get_cache_file_path id ''b'' \<in> unlink_fails troubled"
    by (simp add: troubled_def get_cache_file_path_def)
  have t: "invalidate id troubled ''b'' = troubled"
    using invalidate_then_get_absent [of id troubled "''b''"] u
    by (simp add: troubled_def)
  have h: "get_cache_file_path id ''new'' \<notin> unlink_fails two_entries"
    by (simp add: two_entries_def)
  have g: "fst (get id two_entries 10000000 ''new'' (Some 5000000)) = PStr ''v''"
    by (simp add: get_def get_try_def get_memory_def two_entries_def is_cache_valid_def
        entry_of_def)
  have n: "invalidate_try id two_entries ''none'' = (None, two_entries)"
    by (simp add: invalidate_try_def two_entries_def file_exists_def get_cache_file_path_def)
  from invalidate_then_get_absent [of id two_entries "''new''" 10000000 "Some 5000000"] h g n
    u t
  show ?thesis by (simp add: get_cache_file_path_def)
qed

text \<open>
  C7 as the specification words it fails when \<^verbatim>\<open>unlink\<close> raises: in \<open>troubled\<close> the file
  of \<open>"b"\<close> cannot be deleted, \<open>invalidate("b")\<close> swallows the error and leaves the file,
  and the \<open>get("b")\<close> that follows returns its record.
\<close>

theorem invalidate_unlink_fails_counterexample:
  "file_exists (invalidate id troubled ''b'') ''b.cache''
   \<and> fst (get id (invalidate id troubled ''b'') 10000000 ''b'' None) = PStr ''w''"
  by (simp add: invalidate_def invalidate_try_def unlink_def file_exists_def get_def get_try_def
      get_memory_def get_disk_def read_cache_file_def get_cache_file_path_def troubled_def
      entry_of_def Let_def)

section \<open>clear\<close>




section \<open>Faults\<close>

text \<open>
  C9, as the code has it. Every exception that the body of a public operation raises
  is caught by the handler of the operation, or before that by \<^verbatim>\<open>_read_cache_file\<close> and
  \<^verbatim>\<open>_write_cache_file\<close>: the operations below are total, each is its body followed by
  its handler. A failing operation keeps what it did before the fault and does nothing
  after it, and a write that fails after the open leaves the file truncated. For every
  state of the cache and of its environment:
  \<^item> \<open>get\<close> returns absent when its body raises (a memory entry or a record that the
    validity check or the lookup of its data chokes on), and returns absent and changes
    nothing when the memory tier misses and the file of the key cannot be opened or
    decoded;
  \<^item> \<open>set\<close> writes the memory tier; when the file cannot be opened the directory is left
    as it was; when the write fails after the open, or the payload cannot be
    serialized, the file of the key is left truncated, a file that does not decode;
  \<^item> \<open>invalidate\<close> whose \<^verbatim>\<open>unlink\<close> fails removes the key from the memory tier and leaves
    the directory as it was;
  \<^item> \<open>clear\<close> empties the memory tier and deletes exactly the \<^verbatim>\<open>*.cache\<close> files listed
    before the first one on which \<^verbatim>\<open>unlink\<close> fails (the directory lists each name once);
  \<^item> \<open>cleanup\<close> removes from the memory tier exactly the expired entries among the keys
    before the first entry on which the check raises and, if it raised on none, from
    the directory exactly the expired records among the files before the first one on
    which the check raises or which is expired and cannot be deleted (the memory dict
    lists each key once); all other entries and files are left as they were.
\<close>

theorem faults_are_absorbed:
  "(fst (get_try H s now k M) = Inl x \<longrightarrow> fst (get H s now k M) = PNone)
   \<and> (get_memory s now k M = Inr None
        \<and> (get_cache_file_path H k \<in> read_fails s
            \<or> map_of (cache_dir s) (get_cache_file_path H k) = Some Undecodable)
      \<longrightarrow> get H s now k M = (PNone, s))
   \<and> (get_cache_file_path H k \<in> write_fails s \<and> get_cache_file_path H k \<notin> write_truncates s
      \<longrightarrow> set_op H s now k v ttl =
            s\<lparr>memory_cache := AList.update k (cache_entry now ttl v) (memory_cache s)\<rparr>)
   \<and> ((get_cache_file_path H k \<in> write_fails s \<and> get_cache_file_path H k \<in> write_truncates s)
        \<or> (get_cache_file_path H k \<notin> write_fails s \<and> \<not> serializable v)
      \<longrightarrow> set_op H s now k v ttl =
            s\<lparr>memory_cache := AList.update k (cache_entry now ttl v) (memory_cache s),
              cache_dir := AList.update (get_cache_file_path H k) Undecodable (cache_dir s)\<rparr>)
   \<and> (get_cache_file_path H k \<in> unlink_fails s
      \<longrightarrow> invalidate H s k = s\<lparr>memory_cache := AList.delete k (memory_cache s)\<rparr>)
   \<and> (distinct (map fst (cache_dir s))
      \<longrightarrow> clear s =
            s\<lparr>memory_cache := [],
              cache_dir := filter (\<lambda>p. fst p \<notin> set (unlinked_files s)) (cache_dir s)\<rparr>)
   \<and> (distinct (map fst (memory_cache s))
      \<longrightarrow> map_of (memory_cache (cleanup s now M)) k =
            (case map_of (memory_cache s) k of
               None \<Rightarrow> None
             | Some e \<Rightarrow>
                 if k \<in> set (checked_keys now M s) \<and> expired now M e then None else Some e)
          \<and> map_of (cache_dir (cleanup s now M)) g =
            (if g \<in> set (swept_files now M s) \<and> record_expired now M s g then None
             else map_of (cache_dir s) g))"
proof -
  note get_raises [of H s now k M x]
  moreover have "get_memory s now k M = Inr None
        \<and> (get_cache_file_path H k \<in> read_fails s
            \<or> map_of (cache_dir s) (get_cache_file_path H k) = Some Undecodable)
      \<longrightarrow> get H s now k M = (PNone, s)"
    using get_unreadable [of s now k M H] by blast
  moreover note set_op_cannot_open [of H k s now v ttl]
  moreover note set_op_truncates [of H k s v now ttl]
  moreover note invalidate_unlink_fails [of H k s]
  moreover note clear_exact [of s]
  moreover note cleanup_exact [of s now M k g]
  ultimately show ?thesis by blast
qed

text \<open>
  In \<open>troubled\<close>, at time 10 s with a \<open>max_age\<close> of 5 s. The memory entry of \<open>"bad"\<close> is a
  list: \<open>get("bad")\<close> raises TypeError inside and returns absent. The file of \<open>"a"\<close> does
  not decode: \<open>get("a")\<close> returns absent. The file of \<open>"w"\<close> cannot be opened for writing:
  \<open>set\<close> writes the memory tier only. The write to the file of \<open>"old"\<close> fails after the
  open, and a payload for \<open>"b"\<close> holds an object: both files are left truncated. The file
  of \<open>"b"\<close> cannot be deleted: \<open>invalidate("b")\<close> leaves the state as it is, \<open>clear\<close>
  deletes the two files before it and stops, and \<open>cleanup\<close> on a new instance removes
  the expired record of \<open>"old"\<close> and stops. With the memory tier of \<open>troubled\<close>,
  \<open>cleanup\<close> removes the expired \<open>"old"\<close>, stops at \<open>"bad"\<close> and leaves the directory.
\<close>

theorem faults_are_absorbed_witness:
  "fst (get_try id troubled 10000000 ''bad'' (Some 5000000)) = Inl TypeError
   \<and> fst (get id troubled 10000000 ''bad'' (Some 5000000)) = PNone
   \<and> get id troubled 10000000 ''a'' (Some 5000000) = (PNone, troubled)
   \<and> set_op id troubled 10000000 ''w'' (PStr ''z'') None
       = troubled\<lparr>memory_cache :=
           AList.update ''w'' (cache_entry 10000000 None (PStr ''z'')) (memory_cache troubled)\<rparr>
   \<and> cache_dir (set_op id troubled 10000000 ''old'' (PStr ''z'') None)
       = AList.update ''old.cache'' Undecodable (cache_dir troubled)
   \<and> cache_dir (set_op id troubled 10000000 ''b'' (PDict [(''x'', PObject)]) None)
       = AList.update ''b.cache'' Undecodable (cache_dir troubled)
   \<and> invalidate id troubled ''b'' = troubled
   \<and> clear troubled
       = troubled\<lparr>memory_cache := [],
           cache_dir := [(''b.cache'', Json (entry_of 0 None (PStr ''w''))),
                         (''c.cache'', Json (PDict [(''x'', PNum 1)]))]\<rparr>
   \<and> map_of (memory_cache (cleanup troubled 10000000 (Some 5000000))) ''old'' = None
   \<and> map_of (memory_cache (cleanup troubled 10000000 (Some 5000000))) ''bad''
       = Some (PList [PNum 1])
   \<and> map_of (cache_dir (cleanup troubled 10000000 (Some 5000000))) ''old.cache''
       = Some (Json (entry_of 0 None (PStr ''u'')))
   \<and> map_of (cache_dir (cleanup (init troubled) 10000000 (Some 5000000))) ''old.cache'' = None
   \<and> map_of (cache_dir (cleanup (init troubled) 10000000 (Some 5000000))) ''b.cache''
       = Some (Json (entry_of 0 None (PStr ''w'')))"
proof -
  let ?now = "10000000 :: int" and ?M = "Some (5000000 :: int)"
  let ?old = "entry_of 0 None (PStr ''u'')"
  have p: "get_cache_file_path id k = k @ ''.cache''" for k
    by (simp add: get_cache_file_path_def)
  have v: "is_cache_valid ?now (entry_of 0 None d) ?M = Inr False"
    "is_cache_valid ?now (PList [PNum 1]) ?M = Inl TypeError"
    "is_cache_valid ?now (PDict [(''x'', PNum 1)]) ?M = Inl KeyError" for d
    by (simp_all add: is_cache_valid_def entry_of_def)
  have a1: "fst (get_try id troubled ?now ''bad'' ?M) = Inl TypeError"
    by (simp add: get_try_def get_memory_def troubled_def v)
  have a2: "get_memory troubled ?now ''a'' ?M = Inr None
      \<and> map_of (cache_dir troubled) (get_cache_file_path id ''a'') = Some Undecodable"
    by (simp add: get_memory_def troubled_def p)
  have a3: "get_cache_file_path id ''w'' \<in> write_fails troubled
      \<and> get_cache_file_path id ''w'' \<notin> write_truncates troubled"
    by (simp add: troubled_def p)
  have a4: "get_cache_file_path id ''old'' \<in> write_fails troubled
      \<and> get_cache_file_path id ''old'' \<in> write_truncates troubled"
    by (simp add: troubled_def p)
  have a5: "get_cache_file_path id ''b'' \<notin> write_fails troubled
      \<and> \<not> serializable (PDict [(''x'', PObject)])"
    by (simp add: troubled_def p)
  have a6: "get_cache_file_path id ''b'' \<in> unlink_fails troubled"
    by (simp add: troubled_def p)
  have d: "distinct (map fst (cache_dir troubled))" "distinct (map fst (memory_cache troubled))"
    "distinct (map fst (memory_cache (init troubled)))"
    by (simp_all add: troubled_def)
  have u: "unlinked_files troubled = [''a.cache'', ''old.cache'']"
    by (simp add: unlinked_files_def glob_cache_def endswith_def troubled_def)
  have ck: "checked_keys ?now ?M troubled = [''old'']"
    "checked_keys ?now ?M (init troubled) = []"
    by (simp_all add: checked_keys_def entry_checks_def checks_def troubled_def v)
  have r: "read_cache_file (init troubled) ''a.cache'' = PNone"
    "read_cache_file (init troubled) ''old.cache'' = ?old"
    "read_cache_file (init troubled) ''b.cache'' = entry_of 0 None (PStr ''w'')"
    by (simp_all add: read_cache_file_def troubled_def)
  have g: "glob_cache (init troubled) = [''a.cache'', ''old.cache'', ''b.cache'', ''c.cache'']"
    by (simp add: glob_cache_def endswith_def troubled_def)
  have uf: "unlink_fails troubled = {''b.cache''}"
    by (simp add: troubled_def)
  have ok: "record_ok ?now ?M (init troubled) ''a.cache''"
    "record_ok ?now ?M (init troubled) ''old.cache''"
    "\<not> record_ok ?now ?M (init troubled) ''b.cache''"
    by (simp_all add: record_ok_def r checks_def expired_def v uf)
  have sw: "swept_files ?now ?M troubled = []"
    "swept_files ?now ?M (init troubled) = [''a.cache'', ''old.cache'']"
    by (simp_all add: swept_files_def ck g ok) (simp add: troubled_def)
  have x: "expired ?now ?M ?old" "record_expired ?now ?M (init troubled) ''old.cache''"
    by (simp_all add: expired_def record_expired_def r v)
  have m: "map_of (memory_cache troubled) ''old'' = Some ?old"
    "map_of (memory_cache troubled) ''bad'' = Some (PList [PNum 1])"
    "map_of (cache_dir troubled) ''old.cache'' = Some (Json ?old)"
    "map_of (cache_dir troubled) ''b.cache'' = Some (Json (entry_of 0 None (PStr ''w'')))"
    by (simp_all add: troubled_def)
  have "fst (get id troubled ?now ''bad'' ?M) = PNone"
    using faults_are_absorbed [where H = id and s = troubled and k = "''bad''" and now = ?now
        and M = ?M and x = TypeError] a1
    by simp
  moreover have "get id troubled ?now ''a'' ?M = (PNone, troubled)"
    using faults_are_absorbed [where H = id and s = troubled and k = "''a''" and now = ?now
        and M = ?M] a2
    by simp
  moreover have "set_op id troubled ?now ''w'' (PStr ''z'') None
       = troubled\<lparr>memory_cache :=
           AList.update ''w'' (cache_entry ?now None (PStr ''z'')) (memory_cache troubled)\<rparr>"
    using faults_are_absorbed [where H = id and s = troubled and k = "''w''" and now = ?now
        and v = "PStr ''z''" and ttl = None] a3
    by simp
  moreover have "cache_dir (set_op id troubled ?now ''old'' (PStr ''z'') None)
       = AList.update ''old.cache'' Undecodable (cache_dir troubled)"
    using faults_are_absorbed [where H = id and s = troubled and k = "''old''" and now = ?now
        and v = "PStr ''z''" and ttl = None] a4
    by (simp add: p)
  moreover have "cache_dir (set_op id troubled ?now ''b'' (PDict [(''x'', PObject)]) None)
       = AList.update ''b.cache'' Undecodable (cache_dir troubled)"
    using faults_are_absorbed [where H = id and s = troubled and k = "''b''" and now = ?now
        and v = "PDict [(''x'', PObject)]" and ttl = None] a5
    by (simp add: p)
  moreover have "invalidate id troubled ''b'' = troubled"
    using faults_are_absorbed [where H = id and s = troubled and k = "''b''"] a6
    by (simp add: troubled_def)
  moreover have "clear troubled
       = troubled\<lparr>memory_cache := [],
           cache_dir := [(''b.cache'', Json (entry_of 0 None (PStr ''w''))),
                         (''c.cache'', Json (PDict [(''x'', PNum 1)]))]\<rparr>"
    using faults_are_absorbed [where s = troubled] d(1)
    by (simp add: u) (simp add: troubled_def)
  moreover have "map_of (memory_cache (cleanup troubled ?now ?M)) ''old'' = None"
    and "map_of (cache_dir (cleanup troubled ?now ?M)) ''old.cache'' = Some (Json ?old)"
    using faults_are_absorbed [where s = troubled and now = ?now and M = ?M and k = "''old''"
        and g = "''old.cache''"] d(2)
    by (simp_all add: ck sw m x)
  moreover have "map_of (memory_cache (cleanup troubled ?now ?M)) ''bad'' = Some (PList [PNum 1])"
    using faults_are_absorbed [where s = troubled and now = ?now and M = ?M and k = "''bad''"]
      d(2)
    by (simp add: ck m)
  moreover have "map_of (cache_dir (cleanup (init troubled) ?now ?M)) ''old.cache'' = None"
    using faults_are_absorbed [where s = "init troubled" and now = ?now and M = ?M
        and g = "''old.cache''"] d(3)
    by (simp add: sw x)
  moreover have "map_of (cache_dir (cleanup (init troubled) ?now ?M)) ''b.cache''
       = Some (Json (entry_of 0 None (PStr ''w'')))"
    using faults_are_absorbed [where s = "init troubled" and now = ?now and M = ?M
        and g = "''b.cache''"] d(3)
    by (simp add: sw m)
  ultimately show ?thesis
    using a1 by simp
qed

text \<open>
  C9 as the specification words it fails for a serialization failure: the durable
  write that fails is no no-op. After \<open>set("k", "v")\<close> the file of \<open>"k"\<close> holds the entry;
  a second \<open>set\<close> on \<open>"k"\<close> whose payload holds an object that \<^verbatim>\<open>json.dump\<close> rejects
  leaves a file that does not decode, and the record written before is lost.
\<close>

theorem failed_write_truncates_counterexample:
  "read_cache_file (set_op id empty_cache 0 ''k'' (PStr ''v'') None) ''k.cache''
     = cache_entry 0 None (PStr ''v'')
   \<and> map_of (cache_dir
        (set_op id (set_op id empty_cache 0 ''k'' (PStr ''v'') None) 1000000 ''k''
           (PDict [(''x'', PObject)]) None))
        ''k.cache''
      = Some Undecodable
   \<and> read_cache_file
        (set_op id (set_op id empty_cache 0 ''k'' (PStr ''v'') None) 1000000 ''k''
           (PDict [(''x'', PObject)]) None)
        ''k.cache''
      = PNone"
  by (simp add: read_cache_file_def cache_dir_set_op empty_cache_def get_cache_file_path_def
      update_conv')

section \<open>Zero-length durations\<close>

text \<open>
  C10. A zero-length \<open>max_age\<close> given to \<open>get\<close> or to \<open>cleanup\<close> behaves exactly like no
  \<open>max_age\<close>, and makes every entry valid; \<open>set\<close> with a ttl of zero stores the entry
  that \<open>set\<close> without ttl stores, so that at read time a nonzero \<open>max_age\<close> decides: the
  entry is valid iff its age is below \<open>max_age\<close>, it does not expire at once.
\<close>

theorem zero_durations_are_absent:
  "get H s now k (Some 0) = get H s now k None
   \<and> cleanup s now (Some 0) = cleanup s now None
   \<and> is_cache_valid now e (Some 0) = Inr True
   \<and> set_op H s t0 k v (Some 0) = set_op H s t0 k v None
   \<and> (m \<noteq> 0 \<longrightarrow> is_cache_valid now (cache_entry t0 (Some 0) v) (Some m) = Inr (now - t0 < m))"
proof -
  have "get H s now k (Some 0) = get H s now k None"
    by (simp add: get_def get_try_def get_memory_zero get_disk_zero
        cong: sum.case_cong option.case_cong)
  moreover have "cleanup s now (Some 0) = cleanup s now None"
    by (simp add: cleanup_def cleanup_try_def cleanup_memory_zero cleanup_disk_zero
        cong: prod.case_cong option.case_cong)
  moreover have "set_op H s t0 k v (Some 0) = set_op H s t0 k v None"
    by (simp add: set_op_def cache_entry_def)
  moreover have "m \<noteq> 0 \<longrightarrow>
      is_cache_valid now (cache_entry t0 (Some 0) v) (Some m) = Inr (now - t0 < m)"
    by (simp add: is_cache_valid_def cache_entry_def)
  ultimately show ?thesis by simp
qed

theorem zero_durations_are_absent_witness:
  "(5000000 :: int) \<noteq> 0
   \<and> is_cache_valid 3000000 (cache_entry 0 (Some 0) (PStr ''v'')) (Some 5000000) = Inr True
   \<and> is_cache_valid 3000000 (PStr ''v'') (Some 0) = Inr True"
  using zero_durations_are_absent [of id empty_cache 3000000 "''k''" "PStr ''v''" 0 "PStr ''v''" 5000000]
  by simp

end
